theory Spec2Isabelle
  imports Complex_Main "HOL-Library.Multiset"
begin

section \<open>JavaScript values and strings\<close>

text \<open>
  The filter-query compiler and the paginated executor of
  \<^verbatim>\<open>src/lib/database/DynamoValidator.ts\<close> and
  \<^verbatim>\<open>src/lib/database/DynamoExpressionBuilder.ts\<close> are embedded as HOL functions.
  A value of type \<^verbatim>\<open>any\<close> is a \<open>jsval\<close>. Numbers inside values are the integers
  (doubles without a fractional part, in the range where double arithmetic is exact);
  strings are lists of bytes, and the case mappings and \<^verbatim>\<open>\s\<close> act on ASCII.
\<close>

datatype jsval =
    JUndefined
  | JNull
  | JBool bool
  | JNum int
  | JStr string
  | JArr "jsval list"
  | JObj "(string \<times> jsval) list"

datatype error =
    DynamoValidationError string
  | TypeError string
  | StoreError string

definition isUpper :: "char \<Rightarrow> bool" where
  "isUpper c = (c \<in> set ''ABCDEFGHIJKLMNOPQRSTUVWXYZ'')"

definition isLower :: "char \<Rightarrow> bool" where
  "isLower c = (c \<in> set ''abcdefghijklmnopqrstuvwxyz'')"

definition isDigit :: "char \<Rightarrow> bool" where
  "isDigit c = (c \<in> set ''0123456789'')"

text \<open>The character class \<^verbatim>\<open>[a-zA-Z0-9_]\<close>.\<close>

definition isIdentChar :: "char \<Rightarrow> bool" where
  "isIdentChar c = (isLower c \<or> isUpper c \<or> isDigit c \<or> c = CHR ''_'')"

text \<open>The character class \<^verbatim>\<open>\s\<close> on ASCII: space, tab, line feed, vertical tab, form feed,
  carriage return.\<close>

definition isSpace :: "char \<Rightarrow> bool" where
  "isSpace c = (c \<in> set [CHR '' '', CHR 0x09, CHR 0x0A, CHR 0x0B, CHR 0x0C, CHR 0x0D])"

definition lowerChar :: "char \<Rightarrow> char" where
  "lowerChar c =
     (case map_of (zip ''ABCDEFGHIJKLMNOPQRSTUVWXYZ'' ''abcdefghijklmnopqrstuvwxyz'') c of
        Some d \<Rightarrow> d
      | None \<Rightarrow> c)"

definition upperChar :: "char \<Rightarrow> char" where
  "upperChar c =
     (case map_of (zip ''abcdefghijklmnopqrstuvwxyz'' ''ABCDEFGHIJKLMNOPQRSTUVWXYZ'') c of
        Some d \<Rightarrow> d
      | None \<Rightarrow> c)"

definition toLowerCase :: "string \<Rightarrow> string" where
  "toLowerCase s = map lowerChar s"

definition toUpperCase :: "string \<Rightarrow> string" where
  "toUpperCase s = map upperChar s"

text \<open>\<^verbatim>\<open>s.includes(p)\<close>: \<open>p\<close> occurs in \<open>s\<close> as a contiguous run.\<close>

definition startsWith :: "string \<Rightarrow> string \<Rightarrow> bool" where
  "startsWith s p = (take (length p) s = p)"

primrec includes_str :: "string \<Rightarrow> string \<Rightarrow> bool" where
  "includes_str [] p = (p = [])"
| "includes_str (c # cs) p = (startsWith (c # cs) p \<or> includes_str cs p)"

text \<open>\<^verbatim>\<open>xs.join(sep)\<close>.\<close>

fun join :: "string \<Rightarrow> string list \<Rightarrow> string" where
  "join sep [] = []"
| "join sep [x] = x"
| "join sep (x # y # ys) = x @ sep @ join sep (y # ys)"

text \<open>\<^verbatim>\<open>s.split(d)\<close> for a one-character separator: the empty string gives one empty part.\<close>

fun splitOn :: "char \<Rightarrow> string \<Rightarrow> string list" where
  "splitOn d [] = [[]]"
| "splitOn d (c # cs) =
     (if c = d then [] # splitOn d cs
      else (case splitOn d cs of
              [] \<Rightarrow> [[c]]
            | w # ws \<Rightarrow> (c # w) # ws))"

text \<open>\<^verbatim>\<open>s.split(/\s+/)\<close>: a maximal run of white space is one separator; leading and
  trailing white space leave empty parts, which the caller filters out.\<close>

function splitWhitespace :: "string \<Rightarrow> string list" where
  "splitWhitespace [] = [[]]"
| "splitWhitespace (c # cs) =
     (if isSpace c then [] # splitWhitespace (dropWhile isSpace cs)
      else (case splitWhitespace cs of
              [] \<Rightarrow> [[c]]
            | w # ws \<Rightarrow> (c # w) # ws))"
  by pat_completeness auto
termination
  by (relation "measure length") (auto simp: length_dropWhile_le le_imp_less_Suc)

text \<open>The decimal digits of a number, as a template literal prints an index.\<close>

fun showNat :: "nat \<Rightarrow> string" where
  "showNat n =
     (if n < 10 then [''0123456789'' ! n]
      else showNat (n div 10) @ [''0123456789'' ! (n mod 10)])"

declare showNat.simps [simp del]

definition showInt :: "int \<Rightarrow> string" where
  "showInt i = (if i < 0 then CHR ''-'' # showNat (nat (- i)) else showNat (nat i))"

text \<open>\<^verbatim>\<open>String(v)\<close>: an array joins the strings of its elements with a comma, where
  \<^verbatim>\<open>null\<close> and \<^verbatim>\<open>undefined\<close> elements print as nothing; a plain object prints as
  \<^verbatim>\<open>[object Object]\<close>.\<close>

fun toString :: "jsval \<Rightarrow> string" where
  "toString JUndefined = ''undefined''"
| "toString JNull = ''null''"
| "toString (JBool b) = (if b then ''true'' else ''false'')"
| "toString (JNum n) = showInt n"
| "toString (JStr s) = s"
| "toString (JArr vs) =
     join '','' (map (\<lambda>v. if v = JNull \<or> v = JUndefined then [] else toString v) vs)"
| "toString (JObj kvs) = ''[object Object]''"

text \<open>\<^verbatim>\<open>JSON.stringify\<close>: the quoted form of a string escapes the quote, the backslash
  and the control characters.\<close>

definition hexDigit :: "nat \<Rightarrow> char" where
  "hexDigit n = ''0123456789abcdef'' ! (n mod 16)"

definition jsonEscape :: "char \<Rightarrow> string" where
  "jsonEscape c =
     (if c = CHR 0x22 then [CHR 0x5C, CHR 0x22]
      else if c = CHR 0x5C then [CHR 0x5C, CHR 0x5C]
      else if c = CHR 0x08 then [CHR 0x5C, CHR ''b'']
      else if c = CHR 0x0C then [CHR 0x5C, CHR ''f'']
      else if c = CHR 0x0A then [CHR 0x5C, CHR ''n'']
      else if c = CHR 0x0D then [CHR 0x5C, CHR ''r'']
      else if c = CHR 0x09 then [CHR 0x5C, CHR ''t'']
      else if (of_char c :: nat) < 32
        then [CHR 0x5C, CHR ''u'', CHR ''0'', CHR ''0'',
              hexDigit ((of_char c :: nat) div 16), hexDigit (of_char c :: nat)]
      else [c])"

definition jsonQuote :: "string \<Rightarrow> string" where
  "jsonQuote s = [CHR 0x22] @ concat (map jsonEscape s) @ [CHR 0x22]"

text \<open>The result \<open>None\<close> is \<^verbatim>\<open>undefined\<close>: an \<^verbatim>\<open>undefined\<close> array element prints as
  \<^verbatim>\<open>null\<close>, and a property whose value is \<^verbatim>\<open>undefined\<close> is left out.\<close>

fun stringify :: "jsval \<Rightarrow> string option" where
  "stringify JUndefined = None"
| "stringify JNull = Some ''null''"
| "stringify (JBool b) = Some (if b then ''true'' else ''false'')"
| "stringify (JNum n) = Some (showInt n)"
| "stringify (JStr s) = Some (jsonQuote s)"
| "stringify (JArr vs) =
     Some (''['' @ join '','' (map (\<lambda>v. case stringify v of None \<Rightarrow> ''null'' | Some t \<Rightarrow> t) vs)
           @ '']'')"
| "stringify (JObj kvs) =
     Some (''{'' @ join '','' (concat (map (\<lambda>(k, v). case stringify v of
                                                     None \<Rightarrow> []
                                                   | Some t \<Rightarrow> [jsonQuote k @ '':'' @ t]) kvs))
           @ ''}'')"

section \<open>Validator\<close>

definition MAX_FIELD_DEPTH :: nat where
  "MAX_FIELD_DEPTH = 20"

definition MAX_FIELD_LENGTH :: nat where
  "MAX_FIELD_LENGTH = 255"

definition MAX_VALUE_LENGTH :: nat where
  "MAX_VALUE_LENGTH = 400000"

text \<open>\<^verbatim>\<open>VALID_FIELD_REGEX = /^[a-zA-Z][a-zA-Z0-9_]*$/\<close>.\<close>

definition VALID_FIELD_REGEX :: "string \<Rightarrow> bool" where
  "VALID_FIELD_REGEX part =
     (case part of
        [] \<Rightarrow> False
      | c # cs \<Rightarrow> (isLower c \<or> isUpper c) \<and> list_all isIdentChar cs)"

definition UNSAFE_PATTERNS :: "string list" where
  "UNSAFE_PATTERNS =
     [''__proto__'', ''constructor'', ''prototype'', ''$'', '';'',
      ''DROP'', ''DELETE'', ''INSERT'', ''UPDATE'']"

text \<open>The first error of a sequence of checks, as the first \<^verbatim>\<open>throw\<close> of a
  \<^verbatim>\<open>forEach\<close> leaves the loop.\<close>

fun firstError :: "(error + unit) list \<Rightarrow> error + unit" where
  "firstError [] = Inr ()"
| "firstError (Inl e # rs) = Inl e"
| "firstError (Inr u # rs) = firstError rs"

definition validateFieldPart :: "string \<Rightarrow> error + unit" where
  "validateFieldPart part =
     (if length part > MAX_FIELD_LENGTH
        then Inl (DynamoValidationError ''Field part length exceeds maximum of 255'')
      else if \<not> VALID_FIELD_REGEX part
        then Inl (DynamoValidationError (''Invalid characters in field name: '' @ part))
      else Inr ())"

definition validateFieldName :: "string \<Rightarrow> error + unit" where
  "validateFieldName fld =
     (if fld = [] then Inl (DynamoValidationError ''Field name cannot be empty'')
      else if list_ex (\<lambda>pattern. includes_str (toLowerCase fld) (toLowerCase pattern))
                UNSAFE_PATTERNS
        then Inl (DynamoValidationError (''Field name contains unsafe pattern: '' @ fld))
      else if length (splitOn (CHR ''.'') fld) > MAX_FIELD_DEPTH
        then Inl (DynamoValidationError ''Field depth exceeds maximum of 20'')
      else firstError (map validateFieldPart (splitOn (CHR ''.'') fld)))"

definition dangerousPatterns :: "string list" where
  "dangerousPatterns =
     [''$where'', ''$regex'', ''$ne'', ''$gt'', ''$lt'', ''$gte'', ''$lte'',
      ''$in'', ''$nin'', ''$or'', ''$and'', ''$not'', ''$exists'', ''$type'',
      ''$mod'', ''$text'', ''$elemMatch'', ''$size'', ''$all'', ''$expr'',
      ''__proto__'', ''constructor'', ''prototype'']"

text \<open>
  \<^verbatim>\<open>validateValue\<close>. Its third and fourth statements log
  \<^verbatim>\<open>Object.prototype.hasOwnProperty.call(value, '__proto__')\<close>; the call converts its
  receiver to an object, which throws a \<^verbatim>\<open>TypeError\<close> for \<^verbatim>\<open>null\<close> and
  \<^verbatim>\<open>undefined\<close>. Only then comes the test \<^verbatim>\<open>value === undefined || value === null\<close>.
\<close>

definition hasOwnPropertyCall :: "jsval \<Rightarrow> error + unit" where
  "hasOwnPropertyCall v =
     (if v = JUndefined \<or> v = JNull
        then Inl (TypeError ''Cannot convert undefined or null to object'')
      else Inr ())"

fun validateValue :: "jsval \<Rightarrow> error + unit" where
  "validateValue v =
     (case hasOwnPropertyCall v of
        Inl e \<Rightarrow> Inl e
      | Inr u \<Rightarrow>
         if v = JUndefined \<or> v = JNull
           then Inl (DynamoValidationError ''Value cannot be null or undefined'')
         else (case stringify v of
            None \<Rightarrow> Inl (TypeError ''Cannot read properties of undefined'')
          | Some stringified \<Rightarrow>
             if list_ex (\<lambda>pattern. includes_str (toLowerCase stringified) (toLowerCase pattern))
                  dangerousPatterns
               then Inl (DynamoValidationError ''Potential NoSQL injection detected'')
             else (case v of
                JStr s \<Rightarrow>
                  if length s > MAX_VALUE_LENGTH
                    then Inl (DynamoValidationError ''Value length exceeds maximum of 400000'')
                  else Inr ()
              | JArr vs \<Rightarrow>
                  if vs = [] then Inl (DynamoValidationError ''Empty arrays not supported'')
                  else firstError (map validateValue vs)
              | JObj kvs \<Rightarrow>
                  if list_ex (\<lambda>prop. prop \<in> set dangerousPatterns) (map fst kvs @ map fst kvs)
                    then Inl (DynamoValidationError ''Potential NoSQL injection detected'')
                  else firstError (map (\<lambda>kv. validateValue (snd kv)) kvs)
              | _ \<Rightarrow> Inr ())))"

declare validateValue.simps [simp del]

section \<open>Pagination\<close>

text \<open>
  A \<open>number\<close> of the pagination is a double: a finite one is the real it stands for,
  beside the two infinities and NaN. The two zeros are one value, as nothing below reads
  the sign of a zero. An arithmetic operation returns the exact result rounded to the
  nearest double, to the even significand in a tie (\<open>roundToDouble\<close>): a double has 53
  significant bits, its binary exponent is at least -1022 (below that the spacing stays
  that of the exponent -1022), and a result that rounds to \<open>2 ^ 1024\<close> or more is an
  infinity. \<open>exponent a\<close> is the \<open>e\<close> with \<open>2 ^ e \<le> a < 2 ^ (e + 1)\<close> for a positive \<open>a\<close>.
\<close>

datatype number = Finite real | PosInfinity | NegInfinity | NaN

fun bitLength :: "nat \<Rightarrow> nat" where
  "bitLength n = (if n = 0 then 0 else Suc (bitLength (n div 2)))"

declare bitLength.simps [simp del]

definition exponent :: "real \<Rightarrow> int" where
  "exponent a =
     (if 1 \<le> a then int (bitLength (nat \<lfloor>a\<rfloor>)) - 1
      else - int (bitLength (nat (\<lceil>1 / a\<rceil> - 1))))"

definition roundHalfEven :: "real \<Rightarrow> int" where
  "roundHalfEven q =
     (let f = \<lfloor>q\<rfloor>
      in if q - of_int f < 1 / 2 then f
         else if 1 / 2 < q - of_int f then f + 1
         else if even f then f else f + 1)"

definition roundToDouble :: "real \<Rightarrow> number" where
  "roundToDouble x =
     (if x = 0 then Finite 0
      else let e = max (exponent \<bar>x\<bar>) (- 1022);
               ulp = 2 powi (e - 52);
               v = of_int (roundHalfEven (\<bar>x\<bar> / ulp)) * ulp
           in if 2 ^ 1024 \<le> v then (if x < 0 then NegInfinity else PosInfinity)
              else Finite (if x < 0 then - v else v))"

text \<open>The operators \<^verbatim>\<open>+\<close>, \<^verbatim>\<open>-\<close>, \<^verbatim>\<open>*\<close>, \<^verbatim>\<open><\<close> and \<^verbatim>\<open>>=\<close> on numbers, and
  \<^verbatim>\<open>Math.max\<close> and \<^verbatim>\<open>Math.floor\<close>.\<close>

fun numNeg :: "number \<Rightarrow> number" where
  "numNeg (Finite x) = Finite (- x)"
| "numNeg PosInfinity = NegInfinity"
| "numNeg NegInfinity = PosInfinity"
| "numNeg NaN = NaN"

fun numAdd :: "number \<Rightarrow> number \<Rightarrow> number" where
  "numAdd (Finite x) (Finite y) = roundToDouble (x + y)"
| "numAdd NaN b = NaN"
| "numAdd a NaN = NaN"
| "numAdd PosInfinity NegInfinity = NaN"
| "numAdd NegInfinity PosInfinity = NaN"
| "numAdd PosInfinity b = PosInfinity"
| "numAdd NegInfinity b = NegInfinity"
| "numAdd a PosInfinity = PosInfinity"
| "numAdd a NegInfinity = NegInfinity"

definition numSub :: "number \<Rightarrow> number \<Rightarrow> number" where
  "numSub a b = numAdd a (numNeg b)"

fun numMul :: "number \<Rightarrow> number \<Rightarrow> number" where
  "numMul (Finite x) (Finite y) = roundToDouble (x * y)"
| "numMul NaN b = NaN"
| "numMul a NaN = NaN"
| "numMul (Finite x) b =
     (if x = 0 then NaN else if (0 < x) = (b = PosInfinity) then PosInfinity else NegInfinity)"
| "numMul a (Finite y) =
     (if y = 0 then NaN else if (0 < y) = (a = PosInfinity) then PosInfinity else NegInfinity)"
| "numMul a b = (if a = b then PosInfinity else NegInfinity)"

fun numLess :: "number \<Rightarrow> number \<Rightarrow> bool" where
  "numLess NaN b = False"
| "numLess a NaN = False"
| "numLess (Finite x) (Finite y) = (x < y)"
| "numLess NegInfinity b = (b \<noteq> NegInfinity)"
| "numLess a PosInfinity = (a \<noteq> PosInfinity)"
| "numLess a b = False"

definition numGe :: "number \<Rightarrow> number \<Rightarrow> bool" where
  "numGe a b = (a \<noteq> NaN \<and> b \<noteq> NaN \<and> \<not> numLess a b)"

definition mathMax :: "number \<Rightarrow> number \<Rightarrow> number" where
  "mathMax a b = (if a = NaN \<or> b = NaN then NaN else if numLess a b then b else a)"

fun mathFloor :: "number \<Rightarrow> number" where
  "mathFloor (Finite x) = Finite (of_int \<lfloor>x\<rfloor>)"
| "mathFloor a = a"

text \<open>
  \<^verbatim>\<open>IPaginationQuery\<close>: every field is optional. A property declared as a
  \<^verbatim>\<open>number\<close> is \<^verbatim>\<open>undefined\<close>, \<^verbatim>\<open>null\<close> (the validator takes any value, and a
  decoded JSON body has it) or a number; \<open>toNumber\<close> is the conversion that
  \<^verbatim>\<open>Number(v)\<close> and \<^verbatim>\<open>Math.floor(v)\<close> apply to it. \<open>psize\<close> is the property
  \<^verbatim>\<open>size\<close> that only the validator reads. For \<open>sortBy\<close> and \<open>sortDirection\<close>, \<open>None\<close> is
  \<^verbatim>\<open>undefined\<close>.
\<close>

datatype numprop = Undefined | Null | Number number

fun toNumber :: "numprop \<Rightarrow> number" where
  "toNumber Undefined = NaN"
| "toNumber Null = Finite 0"
| "toNumber (Number n) = n"

record IPaginationQuery =
  page :: numprop
  psize :: numprop
  limit :: numprop
  offset :: numprop
  sortBy :: "string option"
  sortDirection :: "string option"

text \<open>\<^verbatim>\<open>Number.isInteger\<close>, on a finite number and on any number.\<close>

definition isInteger :: "real \<Rightarrow> bool" where
  "isInteger x = (of_int \<lfloor>x\<rfloor> = x)"

fun isIntegerNumber :: "number \<Rightarrow> bool" where
  "isIntegerNumber (Finite x) = isInteger x"
| "isIntegerNumber a = False"

text \<open>A destructuring default applies when the property is \<^verbatim>\<open>undefined\<close>, and only
  then: \<^verbatim>\<open>null\<close> stays.\<close>

definition orDefault :: "'a option \<Rightarrow> 'a \<Rightarrow> 'a" where
  "orDefault v d = (case v of None \<Rightarrow> d | Some x \<Rightarrow> x)"

fun defaultTo :: "numprop \<Rightarrow> number \<Rightarrow> numprop" where
  "defaultTo Undefined d = Number d"
| "defaultTo v d = v"

definition validatePagination :: "IPaginationQuery \<Rightarrow> error + unit" where
  "validatePagination pagination =
     (let pageV = defaultTo (page pagination) (Finite 1);
          sizeV = defaultTo (psize pagination) (Finite 10);
          limitV = limit pagination;
          offsetV = defaultTo (offset pagination) (Finite 0)
      in if pageV \<noteq> Undefined \<and> \<not> isIntegerNumber (toNumber pageV)
           then Inl (DynamoValidationError ''Page must be an integer'')
         else if sizeV \<noteq> Undefined \<and> \<not> isIntegerNumber (toNumber sizeV)
           then Inl (DynamoValidationError ''Size must be an integer'')
         else if limitV \<noteq> Undefined \<and> \<not> isIntegerNumber (toNumber limitV)
           then Inl (DynamoValidationError ''Limit must be an integer'')
         else if offsetV \<noteq> Undefined \<and> \<not> isIntegerNumber (toNumber offsetV)
           then Inl (DynamoValidationError ''Offset must be an integer'')
         else Inr ())"

text \<open>\<^verbatim>\<open>calculatePaginationValues\<close>, the same in both executors: the normalised page
  and limit, then the pair \<^verbatim>\<open>{ limit, offset }\<close> it returns. The given offset is kept
  when \<^verbatim>\<open>typeof offset\<close> is \<^verbatim>\<open>"number"\<close> and it is not below zero.\<close>

definition normalizedPage :: "IPaginationQuery \<Rightarrow> number" where
  "normalizedPage pagination =
     mathMax (Finite 1) (mathFloor (toNumber (defaultTo (page pagination) (Finite 1))))"

definition normalizedLimit :: "IPaginationQuery \<Rightarrow> number" where
  "normalizedLimit pagination =
     mathMax (Finite 0) (mathFloor (toNumber (defaultTo (limit pagination) (Finite 100))))"

definition calculatePaginationValues :: "IPaginationQuery \<Rightarrow> number \<times> number" where
  "calculatePaginationValues pagination =
     (let pg = normalizedPage pagination;
          lmt = normalizedLimit pagination
      in (lmt,
          (case offset pagination of
             Number off \<Rightarrow>
               if numLess off (Finite 0) then numMul (numSub pg (Finite 1)) lmt else off
           | _ \<Rightarrow> numMul (numSub pg (Finite 1)) lmt)))"

text \<open>
  The normalisation in the words of the spec, for the comparison with the code: the
  operator \<^verbatim>\<open>??\<close> takes its right side when the left one is \<^verbatim>\<open>null\<close> or
  \<^verbatim>\<open>undefined\<close>, and the limit is \<^verbatim>\<open>max(0, floor(limit ?? 100))\<close>.
\<close>

fun nullishCoalescing :: "numprop \<Rightarrow> number \<Rightarrow> number" where
  "nullishCoalescing (Number n) d = n"
| "nullishCoalescing v d = d"

definition spec_limit :: "IPaginationQuery \<Rightarrow> number" where
  "spec_limit pagination =
     mathMax (Finite 0) (mathFloor (nullishCoalescing (limit pagination) (Finite 100)))"

section \<open>Expression builder\<close>

text \<open>The store's tagged values (\<^verbatim>\<open>AttributeValue\<close>) and a stored item.\<close>

datatype attr =
    AttrS string
  | AttrN int
  | AttrBOOL bool
  | AttrNULL
  | AttrL "attr list"
  | AttrM "(string \<times> attr) list"

type_synonym item = "(string \<times> attr) list"

text \<open>
  Modelled from the spec: \<^verbatim>\<open>toDynamoDBValue\<close>, \<^verbatim>\<open>fromDynamoDBValue\<close> and
  \<^verbatim>\<open>mapDynamoDBItemToType\<close> of \<^verbatim>\<open>DynamoUtils\<close>, which is not among the sources. The
  spec (4.4) has a bidirectional mapping between plain structured values and the tagged
  values, a string tagged distinctly from a number, a list from a map, and the decoding
  of a whole item into a plain value. \<^verbatim>\<open>undefined\<close> has no tagged form; it is sent to the
  null tag here and never reaches the encoder after validation.
\<close>

fun toDynamoDBValue :: "jsval \<Rightarrow> attr" where
  "toDynamoDBValue JUndefined = AttrNULL"
| "toDynamoDBValue JNull = AttrNULL"
| "toDynamoDBValue (JBool b) = AttrBOOL b"
| "toDynamoDBValue (JNum n) = AttrN n"
| "toDynamoDBValue (JStr s) = AttrS s"
| "toDynamoDBValue (JArr vs) = AttrL (map toDynamoDBValue vs)"
| "toDynamoDBValue (JObj kvs) = AttrM (map (\<lambda>kv. (fst kv, toDynamoDBValue (snd kv))) kvs)"

fun fromDynamoDBValue :: "attr \<Rightarrow> jsval" where
  "fromDynamoDBValue (AttrS s) = JStr s"
| "fromDynamoDBValue (AttrN n) = JNum n"
| "fromDynamoDBValue (AttrBOOL b) = JBool b"
| "fromDynamoDBValue AttrNULL = JNull"
| "fromDynamoDBValue (AttrL vs) = JArr (map fromDynamoDBValue vs)"
| "fromDynamoDBValue (AttrM kvs) = JObj (map (\<lambda>kv. (fst kv, fromDynamoDBValue (snd kv))) kvs)"

definition mapDynamoDBItemToType :: "item \<Rightarrow> jsval" where
  "mapDynamoDBItemToType it = JObj (map (\<lambda>kv. (fst kv, fromDynamoDBValue (snd kv))) it)"

record IFilterQuery =
  field :: string
  operator :: string
  fvalue :: jsval

record DynamoDBFilterExpression =
  KeyConditionExpression :: "string option"
  FilterExpression :: "string option"
  ExpressionAttributeNames :: "(string \<rightharpoonup> string) option"
  ExpressionAttributeValues :: "(string \<rightharpoonup> attr) option"

definition bindE :: "error + 'a \<Rightarrow> ('a \<Rightarrow> error + 'b) \<Rightarrow> error + 'b" where
  "bindE m f = (case m of Inl e \<Rightarrow> Inl e | Inr x \<Rightarrow> f x)"

text \<open>\<^verbatim>\<open>expr.ExpressionAttributeNames![k] = v\<close> and the same for the values: the
  assignment throws when the map is absent.\<close>

definition setName ::
  "DynamoDBFilterExpression \<Rightarrow> string \<Rightarrow> string \<Rightarrow> error + DynamoDBFilterExpression" where
  "setName expr k v =
     (case ExpressionAttributeNames expr of
        None \<Rightarrow> Inl (TypeError ''Cannot set properties of undefined'')
      | Some m \<Rightarrow> Inr (expr\<lparr>ExpressionAttributeNames := Some (m(k \<mapsto> v))\<rparr>))"

definition setValue ::
  "DynamoDBFilterExpression \<Rightarrow> string \<Rightarrow> attr \<Rightarrow> error + DynamoDBFilterExpression" where
  "setValue expr k v =
     (case ExpressionAttributeValues expr of
        None \<Rightarrow> Inl (TypeError ''Cannot set properties of undefined'')
      | Some m \<Rightarrow> Inr (expr\<lparr>ExpressionAttributeValues := Some (m(k \<mapsto> v))\<rparr>))"

text \<open>\<^verbatim>\<open>findIndex\<close> (\<open>None\<close> is its \<^verbatim>\<open>-1\<close>) and \<^verbatim>\<open>splice(i, 1)\<close>.\<close>

fun findIndex :: "('a \<Rightarrow> bool) \<Rightarrow> 'a list \<Rightarrow> nat option" where
  "findIndex P [] = None"
| "findIndex P (x # xs) = (if P x then Some 0 else map_option Suc (findIndex P xs))"

definition splice1 :: "nat \<Rightarrow> 'a list \<Rightarrow> 'a list" where
  "splice1 i xs = take i xs @ drop (Suc i) xs"

definition isPartitionKeyFilter :: "string \<Rightarrow> IFilterQuery \<Rightarrow> bool" where
  "isPartitionKeyFilter pkName f = (field f = pkName \<and> operator f = ''='')"

definition extractPartitionKeyFilter ::
  "string \<Rightarrow> IFilterQuery list \<Rightarrow> IFilterQuery option \<times> IFilterQuery list" where
  "extractPartitionKeyFilter pkName filters =
     (case findIndex (isPartitionKeyFilter pkName) filters of
        None \<Rightarrow> (None, filters)
      | Some pkIndex \<Rightarrow> (Some (filters ! pkIndex), splice1 pkIndex filters))"

definition addPartitionKeyExpression ::
  "DynamoDBFilterExpression \<Rightarrow> IFilterQuery \<Rightarrow> error + DynamoDBFilterExpression" where
  "addPartitionKeyExpression expr pkFilter =
     bindE (setName (expr\<lparr>KeyConditionExpression := Some ''#pk = :pkVal''\<rparr>) ''#pk''
              (field pkFilter))
       (\<lambda>e1. setValue e1 '':pkVal'' (toDynamoDBValue (fvalue pkFilter)))"

text \<open>
  \<^verbatim>\<open>operatorMap\<close> is an object literal, so \<^verbatim>\<open>this.operatorMap[operator]\<close> also finds
  the members every object inherits from \<^verbatim>\<open>Object.prototype\<close>; each of them is a
  function or an object, hence truthy, and the template literal prints it (the texts
  below are those of V8).
\<close>

definition operatorMap :: "(string \<times> string) list" where
  "operatorMap =
     [(''<'', ''<''), (''>'', ''>''), (''<='', ''<=''), (''>='', ''>=''), (''='', ''=''),
      (''!='', ''<>''), (''in'', ''IN''), (''not in'', ''NOT IN''),
      (''like'', ''contains''), (''not like'', ''NOT contains'')]"

definition objectPrototypeMembers :: "string list" where
  "objectPrototypeMembers =
     [''constructor'', ''__defineGetter__'', ''__defineSetter__'', ''hasOwnProperty'',
      ''__lookupGetter__'', ''__lookupSetter__'', ''isPrototypeOf'',
      ''propertyIsEnumerable'', ''toString'', ''valueOf'', ''__proto__'',
      ''toLocaleString'']"

definition inheritedText :: "string \<Rightarrow> string" where
  "inheritedText name =
     (if name = ''__proto__'' then ''[object Object]''
      else if name = ''constructor'' then ''function Object() { [native code] }''
      else ''function '' @ name @ ''() { [native code] }'')"

definition lookupOperator :: "string \<Rightarrow> string option" where
  "lookupOperator op =
     (case map_of operatorMap op of
        Some dynOp \<Rightarrow> Some dynOp
      | None \<Rightarrow> if op \<in> set objectPrototypeMembers then Some (inheritedText op) else None)"

text \<open>The placeholders that the template literals build.\<close>

definition nameKey :: "nat \<Rightarrow> nat \<Rightarrow> string" where
  "nameKey index idx = ''#key'' @ showNat index @ ''_'' @ showNat idx"

definition valKey :: "nat \<Rightarrow> string" where
  "valKey index = '':val'' @ showNat index"

definition valKeyIn :: "nat \<Rightarrow> nat \<Rightarrow> string" where
  "valKeyIn index valIndex = '':val'' @ showNat index @ ''_'' @ showNat valIndex"

definition valKeyLike :: "nat \<Rightarrow> nat \<Rightarrow> string \<Rightarrow> string" where
  "valKeyLike index termIndex suffix =
     '':val'' @ showNat index @ ''_'' @ showNat termIndex @ ''_'' @ suffix"

text \<open>\<^verbatim>\<open>buildBasicExpression\<close>: the value is stored first, then the operator is looked
  up.\<close>

definition buildBasicExpression ::
  "DynamoDBFilterExpression \<Rightarrow> string \<Rightarrow> string \<Rightarrow> jsval \<Rightarrow> nat
     \<Rightarrow> error + (DynamoDBFilterExpression \<times> string)" where
  "buildBasicExpression expr path op v index =
     bindE (setValue expr (valKey index) (toDynamoDBValue v))
       (\<lambda>e1. case lookupOperator op of
                None \<Rightarrow> Inl (DynamoValidationError (''Unsupported operator: '' @ op))
              | Some dynOp \<Rightarrow> Inr (e1, path @ '' '' @ dynOp @ '' '' @ valKey index))"

text \<open>\<^verbatim>\<open>buildInExpression\<close>: the loop over the values, from \<open>valIndex\<close> on.\<close>

fun inChecks ::
  "DynamoDBFilterExpression \<Rightarrow> string \<Rightarrow> nat \<Rightarrow> nat \<Rightarrow> jsval list
     \<Rightarrow> error + (DynamoDBFilterExpression \<times> string list)" where
  "inChecks expr path index valIndex [] = Inr (expr, [])"
| "inChecks expr path index valIndex (v # vs) =
     bindE (setValue expr (valKeyIn index valIndex) (toDynamoDBValue v))
       (\<lambda>e1. bindE (inChecks e1 path index (Suc valIndex) vs)
          (\<lambda>(e2, checks). Inr (e2, (path @ '' = '' @ valKeyIn index valIndex) # checks)))"

definition buildInExpression ::
  "DynamoDBFilterExpression \<Rightarrow> string \<Rightarrow> jsval \<Rightarrow> nat \<Rightarrow> bool
     \<Rightarrow> error + (DynamoDBFilterExpression \<times> string)" where
  "buildInExpression expr path v index isNot =
     bindE (inChecks expr path index 0 (case v of JArr vs \<Rightarrow> vs | _ \<Rightarrow> [v]))
       (\<lambda>(e1, equalityChecks).
          let combinedExpression = ''('' @ join '' OR '' equalityChecks @ '')''
          in Inr (e1, if isNot then ''NOT '' @ combinedExpression else combinedExpression))"

text \<open>\<^verbatim>\<open>buildLikeExpression\<close>: the search terms, and the loop over them from
  \<open>termIndex\<close> on.\<close>

definition searchTerms :: "jsval \<Rightarrow> string list" where
  "searchTerms v = filter (\<lambda>t. length t > 0) (splitWhitespace (toLowerCase (toString v)))"

definition containsExpr :: "string \<Rightarrow> nat \<Rightarrow> nat \<Rightarrow> string" where
  "containsExpr path index termIndex =
     ''contains('' @ path @ '', '' @ valKeyLike index termIndex ''l'' @ '') OR contains(''
       @ path @ '', '' @ valKeyLike index termIndex ''u'' @ '') OR contains(''
       @ path @ '', '' @ valKeyLike index termIndex ''o'' @ '')''"

fun containsExpressions ::
  "DynamoDBFilterExpression \<Rightarrow> string \<Rightarrow> nat \<Rightarrow> bool \<Rightarrow> nat \<Rightarrow> string list
     \<Rightarrow> error + (DynamoDBFilterExpression \<times> string list)" where
  "containsExpressions expr path index isNot termIndex [] = Inr (expr, [])"
| "containsExpressions expr path index isNot termIndex (t # ts) =
     bindE (setValue expr (valKeyLike index termIndex ''l'')
              (toDynamoDBValue (JStr (toLowerCase t))))
       (\<lambda>e1. bindE (setValue e1 (valKeyLike index termIndex ''u'')
                       (toDynamoDBValue (JStr (toUpperCase t))))
       (\<lambda>e2. bindE (setValue e2 (valKeyLike index termIndex ''o'') (toDynamoDBValue (JStr t)))
       (\<lambda>e3. bindE (containsExpressions e3 path index isNot (Suc termIndex) ts)
       (\<lambda>(e4, rest).
          Inr (e4, (if isNot then ''NOT ('' @ containsExpr path index termIndex @ '')''
                    else containsExpr path index termIndex) # rest)))))"

definition buildLikeExpression ::
  "DynamoDBFilterExpression \<Rightarrow> string \<Rightarrow> jsval \<Rightarrow> nat \<Rightarrow> bool
     \<Rightarrow> error + (DynamoDBFilterExpression \<times> string)" where
  "buildLikeExpression expr path v index isNot =
     (if searchTerms v = []
        then Inr (expr, if isNot then ''attribute_exists('' @ path @ '')''
                        else ''attribute_not_exists('' @ path @ '')'')
      else bindE (containsExpressions expr path index isNot 0 (searchTerms v))
             (\<lambda>(e1, exprs).
                Inr (e1, if isNot then join '' AND '' exprs
                         else ''('' @ join '' AND '' exprs @ '')'')))"

text \<open>\<^verbatim>\<open>buildSubExpression\<close>: one name placeholder for each segment of the dotted
  field, then the operator's builder.\<close>

fun setPathNames ::
  "DynamoDBFilterExpression \<Rightarrow> nat \<Rightarrow> nat \<Rightarrow> string list \<Rightarrow> error + DynamoDBFilterExpression"
  where
  "setPathNames expr index idx [] = Inr expr"
| "setPathNames expr index idx (part # parts) =
     bindE (setName expr (nameKey index idx) part)
       (\<lambda>e1. setPathNames e1 index (Suc idx) parts)"

definition pathOf :: "nat \<Rightarrow> string list \<Rightarrow> string" where
  "pathOf index pathParts = join ''.'' (map (nameKey index) [0..<length pathParts])"

definition buildSubExpression ::
  "DynamoDBFilterExpression \<Rightarrow> string \<Rightarrow> string \<Rightarrow> jsval \<Rightarrow> nat
     \<Rightarrow> error + (DynamoDBFilterExpression \<times> string)" where
  "buildSubExpression expr fld op v index =
     (let pathParts = splitOn (CHR ''.'') fld in
      bindE (setPathNames expr index 0 pathParts)
        (\<lambda>e1. let path = pathOf index pathParts in
           if op = ''like'' \<or> op = ''not like''
             then buildLikeExpression e1 path v index (op = ''not like'')
           else if op = ''in'' \<or> op = ''not in''
             then buildInExpression e1 path v index (op = ''not in'')
           else buildBasicExpression e1 path op v index))"

text \<open>\<^verbatim>\<open>addFilterExpressions\<close>: \<^verbatim>\<open>filters.map\<close> with its index, from \<open>i\<close> on.\<close>

fun subExpressions ::
  "DynamoDBFilterExpression \<Rightarrow> nat \<Rightarrow> IFilterQuery list
     \<Rightarrow> error + (DynamoDBFilterExpression \<times> string list)" where
  "subExpressions expr i [] = Inr (expr, [])"
| "subExpressions expr i (f # fs) =
     bindE (buildSubExpression expr (field f) (operator f) (fvalue f) i)
       (\<lambda>(e1, s). bindE (subExpressions e1 (Suc i) fs)
          (\<lambda>(e2, ss). Inr (e2, s # ss)))"

definition addFilterExpressions ::
  "DynamoDBFilterExpression \<Rightarrow> IFilterQuery list \<Rightarrow> error + DynamoDBFilterExpression" where
  "addFilterExpressions expr filters =
     bindE (subExpressions expr 0 filters)
       (\<lambda>(e1, ss). Inr (e1\<lparr>FilterExpression := Some (join '' AND '' ss)\<rparr>))"

definition validateFilter :: "IFilterQuery \<Rightarrow> error + unit" where
  "validateFilter f = bindE (validateFieldName (field f)) (\<lambda>u. validateValue (fvalue f))"

definition emptyExpression :: DynamoDBFilterExpression where
  "emptyExpression =
     \<lparr>KeyConditionExpression = None, FilterExpression = None,
      ExpressionAttributeNames = None, ExpressionAttributeValues = None\<rparr>"

definition buildFilterExpression ::
  "string \<Rightarrow> IFilterQuery list \<Rightarrow> error + DynamoDBFilterExpression" where
  "buildFilterExpression pkName filters =
     (if filters = [] then Inr emptyExpression
      else bindE (firstError (map validateFilter filters))
        (\<lambda>u. let expr = \<lparr>KeyConditionExpression = None, FilterExpression = None,
                          ExpressionAttributeNames = Some Map.empty,
                          ExpressionAttributeValues = Some Map.empty\<rparr>
              in case extractPartitionKeyFilter pkName filters of
                   (pkFilter, remainingFilters) \<Rightarrow>
                     bindE (case pkFilter of
                              None \<Rightarrow> Inr expr
                            | Some pk \<Rightarrow> addPartitionKeyExpression expr pk)
                       (\<lambda>e1. if remainingFilters \<noteq> [] then addFilterExpressions e1 remainingFilters
                              else Inr e1)))"

section \<open>Query planner and executor\<close>

text \<open>
  The native request (\<^verbatim>\<open>QueryCommandInput | ScanCommandInput\<close>) carries the fields of
  the compiled expression, the table name and the direction flag. The store client is a
  function from the command sent to its outcome, and every executor returns the list of
  the commands it has sent beside its result, so that "no network call" is the empty
  list.
\<close>

record QueryCommandInput = DynamoDBFilterExpression +
  TableName :: string
  ScanIndexForward :: "bool option"

datatype command =
    QueryCommand QueryCommandInput
  | ScanCommand QueryCommandInput

record CommandOutput =
  Items :: "item list option"

type_synonym DynamoDBClient = "command \<Rightarrow> error + CommandOutput"

record IGenericFilterQuery =
  filters :: "IFilterQuery list option"
  pagination :: "IPaginationQuery option"

record Page =
  data :: "jsval list"
  total :: nat

definition emptyPagination :: IPaginationQuery where
  "emptyPagination =
     \<lparr>page = Undefined, psize = Undefined, limit = Undefined, offset = Undefined,
      sortBy = None, sortDirection = None\<rparr>"

text \<open>The request \<^verbatim>\<open>{ TableName: this.tableName }\<close>.\<close>

definition tableOnly :: "string \<Rightarrow> QueryCommandInput" where
  "tableOnly tableName =
     \<lparr>KeyConditionExpression = None, FilterExpression = None,
      ExpressionAttributeNames = None, ExpressionAttributeValues = None,
      TableName = tableName, ScanIndexForward = None\<rparr>"

text \<open>A string property is truthy when it is present and not empty;
  \<open>sortKeyOf\<close> is \<^verbatim>\<open>pagination.sortBy\<close> where that is truthy.\<close>

definition truthy :: "string option \<Rightarrow> bool" where
  "truthy s = (case s of None \<Rightarrow> False | Some t \<Rightarrow> t \<noteq> [])"

definition sortKeyOf :: "IPaginationQuery \<Rightarrow> string option" where
  "sortKeyOf pg = (if truthy (sortBy pg) then sortBy pg else None)"

text \<open>\<^verbatim>\<open>buildQueryParams(expr, pagination?)\<close>, the same text in both executors; the
  executor without the sort fallback calls it with no pagination.\<close>

definition buildQueryParams ::
  "string \<Rightarrow> DynamoDBFilterExpression \<Rightarrow> IPaginationQuery option \<Rightarrow> error + QueryCommandInput"
  where
  "buildQueryParams tableName expr pg =
     bindE
       (if truthy (KeyConditionExpression expr)
          then (let queryParams =
                      (tableOnly tableName)\<lparr>KeyConditionExpression := KeyConditionExpression expr\<rparr>
                in case pg of
                     None \<Rightarrow> Inr queryParams
                   | Some p \<Rightarrow>
                      (case sortKeyOf p of
                         None \<Rightarrow> Inr queryParams
                       | Some sb \<Rightarrow>
                           bindE (validateFieldName sb)
                             (\<lambda>u. Inr (queryParams
                                \<lparr>ExpressionAttributeNames := Some [''#sortKey'' \<mapsto> sb],
                                 ScanIndexForward := Some (sortDirection p \<noteq> Some ''desc'')\<rparr>))))
        else Inr (tableOnly tableName))
       (\<lambda>p1.
          let p2 = (if truthy (FilterExpression expr)
                      then p1\<lparr>FilterExpression := FilterExpression expr\<rparr> else p1);
              p3 = (case ExpressionAttributeNames expr of
                      None \<Rightarrow> p2
                    | Some ns \<Rightarrow>
                        p2\<lparr>ExpressionAttributeNames :=
                             Some (orDefault (ExpressionAttributeNames p2) Map.empty ++ ns)\<rparr>);
              p4 = (case ExpressionAttributeValues expr of
                      None \<Rightarrow> p3
                    | Some vs \<Rightarrow> p3\<lparr>ExpressionAttributeValues := Some vs\<rparr>)
          in Inr p4)"

text \<open>\<^verbatim>\<open>prepareQueryParameters\<close> of the executor with the sort fallback: it returns
  the request, the limit, the offset and the pagination.\<close>

definition prepareQueryParameters ::
  "string \<Rightarrow> string \<Rightarrow> IGenericFilterQuery
     \<Rightarrow> error + (QueryCommandInput \<times> number \<times> number \<times> IPaginationQuery)" where
  "prepareQueryParameters tableName pkName query =
     (let pg = orDefault (pagination query) emptyPagination;
          fs = orDefault (filters query) []
      in bindE (validatePagination pg)
           (\<lambda>u. case calculatePaginationValues pg of
                   (lmt, off) \<Rightarrow>
                     if lmt = Finite 0 then Inr (tableOnly tableName, Finite 0, Finite 0, pg)
                     else bindE (buildFilterExpression pkName fs)
                            (\<lambda>expr. bindE (buildQueryParams tableName expr (Some pg))
                               (\<lambda>params. Inr (params, lmt, off, pg)))))"

text \<open>The same method of the executor without the sort fallback.\<close>

definition prepareQueryParameters_plain ::
  "string \<Rightarrow> string \<Rightarrow> IGenericFilterQuery
     \<Rightarrow> error + (QueryCommandInput \<times> number \<times> number)" where
  "prepareQueryParameters_plain tableName pkName query =
     (let pg = orDefault (pagination query) emptyPagination;
          fs = orDefault (filters query) []
      in bindE (validatePagination pg)
           (\<lambda>u. case calculatePaginationValues pg of
                   (lmt, off) \<Rightarrow>
                     if lmt = Finite 0 then Inr (tableOnly tableName, Finite 0, Finite 0)
                     else bindE (buildFilterExpression pkName fs)
                            (\<lambda>expr. bindE (buildQueryParams tableName expr None)
                               (\<lambda>params. Inr (params, lmt, off)))))"

text \<open>
  The comparator of the client-side sort. An item of the response is a plain object, so
  \<^verbatim>\<open>a[sortKey]\<close> finds an attribute of the item, or else a member that every object
  inherits from \<^verbatim>\<open>Object.prototype\<close>, and is \<^verbatim>\<open>undefined\<close> otherwise. An attribute (a
  tagged value) and an inherited member (a function or an object) are truthy.
\<close>

datatype property = Own attr | Inherited string | NoProperty

definition getProperty :: "item \<Rightarrow> string \<Rightarrow> property" where
  "getProperty a key =
     (case map_of a key of
        Some av \<Rightarrow> Own av
      | None \<Rightarrow> if key \<in> set objectPrototypeMembers then Inherited key else NoProperty)"

text \<open>
  \<^verbatim>\<open>[...items].sort(cmp)\<close>. The language fixes the result of the sort for a consistent
  comparator (reflexive, symmetric and transitive where it answers 0, transitive where it
  answers below 0 and where it answers above 0): the sorted arrangement that keeps
  elements comparing equal in their input order. For any other comparator the order is
  implementation-defined, and the result still holds the elements of the input.
  \<open>sortWith\<close>, the stable insertion, computes the arrangement of the first case, the only
  one there is (lemma \<open>sortContract_language\<close>). The sort of the engine is any function
  within this contract.
\<close>

definition consistentOn :: "('a \<Rightarrow> 'a \<Rightarrow> int) \<Rightarrow> 'a set \<Rightarrow> bool" where
  "consistentOn cmp S =
     (\<forall>a \<in> S. \<forall>b \<in> S. \<forall>c \<in> S.
        cmp a a = 0
      \<and> (cmp a b = 0 \<longrightarrow> cmp b a = 0)
      \<and> (cmp a b = 0 \<and> cmp b c = 0 \<longrightarrow> cmp a c = 0)
      \<and> (cmp a b < 0 \<and> cmp b c < 0 \<longrightarrow> cmp a c < 0)
      \<and> (0 < cmp a b \<and> 0 < cmp b c \<longrightarrow> 0 < cmp a c))"

fun insertSorted :: "('a \<Rightarrow> 'a \<Rightarrow> int) \<Rightarrow> 'a \<Rightarrow> 'a list \<Rightarrow> 'a list" where
  "insertSorted cmp x [] = [x]"
| "insertSorted cmp x (y # ys) =
     (if cmp x y \<le> 0 then x # y # ys else y # insertSorted cmp x ys)"

definition sortWith :: "('a \<Rightarrow> 'a \<Rightarrow> int) \<Rightarrow> 'a list \<Rightarrow> 'a list" where
  "sortWith cmp xs = foldr (insertSorted cmp) xs []"

definition sortContract :: "(('a \<Rightarrow> 'a \<Rightarrow> int) \<Rightarrow> 'a list \<Rightarrow> 'a list) \<Rightarrow> bool" where
  "sortContract srt =
     (\<forall>cmp xs. mset (srt cmp xs) = mset xs
        \<and> (consistentOn cmp (set xs) \<longrightarrow> srt cmp xs = sortWith cmp xs))"

typedef sortEngine = "{srt :: (item \<Rightarrow> item \<Rightarrow> int) \<Rightarrow> item list \<Rightarrow> item list. sortContract srt}"
  morphisms runSort SortEngine
proof
  have "mset (insertSorted cmp x xs) = add_mset x (mset xs)"
    for cmp :: "item \<Rightarrow> item \<Rightarrow> int" and x xs
    by (induction xs) auto
  then have "mset (sortWith cmp xs) = mset xs" for cmp :: "item \<Rightarrow> item \<Rightarrow> int" and xs
    by (induction xs) (simp_all add: sortWith_def)
  then show "sortWith \<in> {srt :: (item \<Rightarrow> item \<Rightarrow> int) \<Rightarrow> item list \<Rightarrow> item list. sortContract srt}"
    by (simp add: sortContract_def)
qed

text \<open>
  What the executor takes from outside the sources. \<^verbatim>\<open>localeCompare\<close> depends on the
  locale data of the host, and \<open>arraySort\<close> is the sort of its engine.

  Modelled from the spec: the result of \<^verbatim>\<open>fromDynamoDBValue\<close> (of \<^verbatim>\<open>DynamoUtils\<close>,
  not among the sources) on a member inherited from \<^verbatim>\<open>Object.prototype\<close>. The spec (4.4)
  has the decoding as a mapping of tagged values, without a failure, and says nothing
  of an argument that is no tagged value; the value returned for the member of the name
  \<open>m\<close> is \<open>decodeInherited m\<close>.
\<close>

record Host =
  localeCompare :: "string \<Rightarrow> string \<Rightarrow> int"
  arraySort :: sortEngine
  decodeInherited :: "string \<Rightarrow> jsval"

text \<open>\<^verbatim>\<open>a[sortKey] ? fromDynamoDBValue(a[sortKey]) : ""\<close>, and the comparator.\<close>

definition sortValue :: "Host \<Rightarrow> string \<Rightarrow> item \<Rightarrow> jsval" where
  "sortValue h sortKey a =
     (case getProperty a sortKey of
        Own av \<Rightarrow> fromDynamoDBValue av
      | Inherited m \<Rightarrow> decodeInherited h m
      | NoProperty \<Rightarrow> JStr [])"

fun compareValues :: "(string \<Rightarrow> string \<Rightarrow> int) \<Rightarrow> bool \<Rightarrow> jsval \<Rightarrow> jsval \<Rightarrow> int" where
  "compareValues lc scanForward (JStr x) (JStr y) = (if scanForward then lc x y else lc y x)"
| "compareValues lc scanForward (JNum x) (JNum y) = (if scanForward then x - y else y - x)"
| "compareValues lc scanForward aVal bVal =
     (if scanForward then lc (toString aVal) (toString bVal)
      else lc (toString bVal) (toString aVal))"

definition compareItems :: "Host \<Rightarrow> bool \<Rightarrow> string \<Rightarrow> item \<Rightarrow> item \<Rightarrow> int" where
  "compareItems h scanForward sortKey a b =
     compareValues (localeCompare h) scanForward (sortValue h sortKey a) (sortValue h sortKey b)"

definition commandFor :: "QueryCommandInput \<Rightarrow> command" where
  "commandFor params =
     (if KeyConditionExpression params \<noteq> None then QueryCommand params
      else ScanCommand params)"

text \<open>\<^verbatim>\<open>executeQuery\<close> with the sort fallback: the command sent, and the items.\<close>

definition executeQuery ::
  "Host \<Rightarrow> QueryCommandInput \<Rightarrow> DynamoDBClient \<Rightarrow> IPaginationQuery
     \<Rightarrow> command \<times> (error + item list)" where
  "executeQuery h params dynamoDBClient pg =
     (commandFor params,
      bindE (dynamoDBClient (commandFor params))
        (\<lambda>response.
           let items = orDefault (Items response) []
           in case sortKeyOf pg of
                None \<Rightarrow> Inr items
              | Some sortKey \<Rightarrow>
                  Inr (runSort (arraySort h)
                         (compareItems h (sortDirection pg \<noteq> Some ''desc'') sortKey) items)))"

text \<open>\<^verbatim>\<open>executeQuery\<close> without it.\<close>

definition executeQuery_plain ::
  "QueryCommandInput \<Rightarrow> DynamoDBClient \<Rightarrow> command \<times> (error + item list)" where
  "executeQuery_plain params dynamoDBClient =
     (commandFor params,
      bindE (dynamoDBClient (commandFor params))
        (\<lambda>response. Inr (orDefault (Items response) [])))"

text \<open>\<^verbatim>\<open>items.slice(start, end)\<close>: a bound is truncated to an integer (NaN to 0), a
  negative one counts from the end, and both are kept within the array.\<close>

fun relativeIndex :: "nat \<Rightarrow> number \<Rightarrow> nat" where
  "relativeIndex len (Finite x) =
     (if x < 0 then nat (max (int len + \<lceil>x\<rceil>) 0) else min (nat \<lfloor>x\<rfloor>) len)"
| "relativeIndex len PosInfinity = len"
| "relativeIndex len NegInfinity = 0"
| "relativeIndex len NaN = 0"

definition slice :: "'a list \<Rightarrow> number \<Rightarrow> number \<Rightarrow> 'a list" where
  "slice xs start stop =
     (let k = relativeIndex (length xs) start;
          final = relativeIndex (length xs) stop
      in take (final - k) (drop k xs))"

text \<open>\<^verbatim>\<open>processResults\<close>, the same in both executors.\<close>

definition processResults :: "item list \<Rightarrow> number \<Rightarrow> number \<Rightarrow> jsval list" where
  "processResults items lmt off =
     (if lmt = Finite 0 then []
      else if numGe off (Finite (real (length items))) then []
      else map mapDynamoDBItemToType (slice items off (numAdd off lmt)))"

text \<open>\<^verbatim>\<open>fetchWithFiltersAndPagination\<close> of each executor; \<^verbatim>\<open>handleError\<close> only logs
  before the error is thrown again.\<close>

definition fetchWithFiltersAndPagination ::
  "Host \<Rightarrow> string \<Rightarrow> string \<Rightarrow> IGenericFilterQuery \<Rightarrow> DynamoDBClient
     \<Rightarrow> command list \<times> (error + Page)" where
  "fetchWithFiltersAndPagination h tableName pkName query dynamoDBClient =
     (case prepareQueryParameters tableName pkName query of
        Inl e \<Rightarrow> ([], Inl e)
      | Inr (params, lmt, off, pg) \<Rightarrow>
          (case executeQuery h params dynamoDBClient pg of
             (cmd, r) \<Rightarrow>
               ([cmd],
                bindE r (\<lambda>items. Inr \<lparr>data = processResults items lmt off,
                                      total = length items\<rparr>))))"

definition fetchWithFiltersAndPagination_plain ::
  "string \<Rightarrow> string \<Rightarrow> IGenericFilterQuery \<Rightarrow> DynamoDBClient
     \<Rightarrow> command list \<times> (error + Page)" where
  "fetchWithFiltersAndPagination_plain tableName pkName query dynamoDBClient =
     (case prepareQueryParameters_plain tableName pkName query of
        Inl e \<Rightarrow> ([], Inl e)
      | Inr (params, lmt, off) \<Rightarrow>
          (case executeQuery_plain params dynamoDBClient of
             (cmd, r) \<Rightarrow>
               ([cmd],
                bindE r (\<lambda>items. Inr \<lparr>data = processResults items lmt off,
                                      total = length items\<rparr>))))"


definition scanAll :: "item list \<Rightarrow> DynamoDBClient" where
  "scanAll tbl cmd =
     (case cmd of
        ScanCommand params \<Rightarrow>
          if FilterExpression params = None then Inr \<lparr>Items = Some tbl\<rparr>
          else Inl (StoreError ''filtered scan'')
      | QueryCommand params \<Rightarrow> Inl (StoreError ''query''))"

text \<open>The operators of the table, and the state in which the private methods of the
  builder run: both placeholder maps present.\<close>

definition supportedOperators :: "string list" where
  "supportedOperators = map fst operatorMap"

definition hasMaps :: "DynamoDBFilterExpression \<Rightarrow> bool" where
  "hasMaps expr =
     (ExpressionAttributeNames expr \<noteq> None \<and> ExpressionAttributeValues expr \<noteq> None)"

text \<open>Reading a decimal numeral back, for the proof that distinct indices print
  differently.\<close>

definition digitVal :: "char \<Rightarrow> nat" where
  "digitVal c = (case map_of (zip ''0123456789'' [0..<10]) c of Some k \<Rightarrow> k | None \<Rightarrow> 0)"

definition readNat :: "string \<Rightarrow> nat" where
  "readNat s = foldl (\<lambda>acc c. 10 * acc + digitVal c) 0 s"

text \<open>Sample comparisons for the examples. The first takes strings by their code
  units, the shorter of two first where one is the beginning of the other. The second
  does so after leaving out the control characters, which the collation behind
  \<^verbatim>\<open>localeCompare\<close> ignores: \<^verbatim>\<open>''.localeCompare('\u0001')\<close> is 0.\<close>

fun codeUnitCompare :: "string \<Rightarrow> string \<Rightarrow> int" where
  "codeUnitCompare [] [] = 0"
| "codeUnitCompare [] (y # ys) = - 1"
| "codeUnitCompare (x # xs) [] = 1"
| "codeUnitCompare (x # xs) (y # ys) =
     (if x = y then codeUnitCompare xs ys
      else if (of_char x :: nat) < of_char y then - 1 else 1)"

definition isIgnorable :: "char \<Rightarrow> bool" where
  "isIgnorable c =
     ((of_char c :: nat) \<le> 8 \<or> (14 \<le> (of_char c :: nat) \<and> (of_char c :: nat) \<le> 31)
      \<or> (of_char c :: nat) = 127)"

definition collationCompare :: "string \<Rightarrow> string \<Rightarrow> int" where
  "collationCompare x y =
     codeUnitCompare (filter (\<lambda>c. \<not> isIgnorable c) x) (filter (\<lambda>c. \<not> isIgnorable c) y)"

text \<open>Sample hosts for the examples: the stable insertion as the engine's sort, with
  each of the two comparisons.\<close>

definition stableInsertion :: sortEngine where
  "stableInsertion = SortEngine sortWith"

definition sampleHost :: Host where
  "sampleHost =
     \<lparr>localeCompare = codeUnitCompare, arraySort = stableInsertion,
      decodeInherited = (\<lambda>m. JUndefined)\<rparr>"

definition collationHost :: Host where
  "collationHost =
     \<lparr>localeCompare = collationCompare, arraySort = stableInsertion,
      decodeInherited = (\<lambda>m. JUndefined)\<rparr>"

section \<open>Placeholders of an expression\<close>

text \<open>
  The placeholders that an expression string refers to: a name placeholder is \<^verbatim>\<open>#\<close>
  and a value placeholder \<^verbatim>\<open>:\<close>, each followed by the longest run of letters, digits
  and underscores. \<open>placeholders m s\<close> lists those of marker \<open>m\<close> in \<open>s\<close>, in
  order.
\<close>

function placeholders :: "char \<Rightarrow> string \<Rightarrow> string list" where
  "placeholders m [] = []"
| "placeholders m (c # cs) =
     (if c = m then (c # takeWhile isIdentChar cs) # placeholders m (dropWhile isIdentChar cs)
      else placeholders m cs)"
  by pat_completeness auto
termination
  by (relation "measure (\<lambda>(m, s). length s)") (auto simp: length_dropWhile_le le_imp_less_Suc)

text \<open>The placeholders that the builder forms for the predicate at index \<open>i\<close>.\<close>

definition nameKeysOf :: "nat \<Rightarrow> string set" where
  "nameKeysOf i = range (nameKey i)"

definition valueKeysOf :: "nat \<Rightarrow> string set" where
  "valueKeysOf i =
     insert (valKey i) (range (valKeyIn i) \<union> range (\<lambda>(k, s). valKeyLike i k s))"

definition namesOf :: "DynamoDBFilterExpression \<Rightarrow> string set" where
  "namesOf expr = dom (orDefault (ExpressionAttributeNames expr) Map.empty)"

definition valuesOf :: "DynamoDBFilterExpression \<Rightarrow> string set" where
  "valuesOf expr = dom (orDefault (ExpressionAttributeValues expr) Map.empty)"

section \<open>Verified properties\<close>

subsection \<open>Evaluating the validator\<close>

text \<open>The pattern lists in lower case once and for all, and a pattern whose first
  character is absent from a string does not occur in it.\<close>

lemma includes_str_hd: "p \<noteq> [] \<Longrightarrow> hd p \<notin> set s \<Longrightarrow> includes_str s p = False"
proof (induction s)
  case Nil
  then show ?case by simp
next
  case (Cons c cs)
  then show ?case by (cases p) (auto simp: startsWith_def)
qed

lemma dangerousPatterns_lower:
  "map toLowerCase dangerousPatterns
     = [''$where'', ''$regex'', ''$ne'', ''$gt'', ''$lt'', ''$gte'', ''$lte'',
        ''$in'', ''$nin'', ''$or'', ''$and'', ''$not'', ''$exists'', ''$type'',
        ''$mod'', ''$text'', ''$elemmatch'', ''$size'', ''$all'', ''$expr'',
        ''__proto__'', ''constructor'', ''prototype'']"
  by (simp add: toLowerCase_def lowerChar_def dangerousPatterns_def)

lemma UNSAFE_PATTERNS_lower:
  "map toLowerCase UNSAFE_PATTERNS
     = [''__proto__'', ''constructor'', ''prototype'', ''$'', '';'',
        ''drop'', ''delete'', ''insert'', ''update'']"
  by (simp add: toLowerCase_def lowerChar_def UNSAFE_PATTERNS_def)

lemma list_ex_lowered:
  "list_ex (\<lambda>pattern. includes_str t (toLowerCase pattern)) ps
     = list_ex (includes_str t) (map toLowerCase ps)"
  by (simp add: list_ex_iff)

lemmas dangerous_check = list_ex_lowered [of _ dangerousPatterns, unfolded dangerousPatterns_lower]
lemmas unsafe_check = list_ex_lowered [of _ UNSAFE_PATTERNS, unfolded UNSAFE_PATTERNS_lower]

lemmas validateFieldName_eval = validateFieldName_def [unfolded unsafe_check]

lemmas validateValue_eval = validateValue.simps [unfolded dangerous_check]

subsection \<open>Partition-key extraction\<close>

lemma findIndex_None: "findIndex P xs = None \<longleftrightarrow> \<not> list_ex P xs"
  by (induction xs) auto

lemma findIndex_Some:
  "findIndex P xs = Some i \<Longrightarrow>
     i < length xs \<and> P (xs ! i) \<and> \<not> list_ex P (take i xs)"
proof (induction xs arbitrary: i)
  case Nil
  then show ?case by simp
next
  case (Cons x xs)
  show ?case
  proof (cases "P x")
    case True
    with Cons.prems show ?thesis by simp
  next
    case False
    with Cons.prems obtain j where j: "findIndex P xs = Some j" "i = Suc j"
      by auto
    from Cons.IH [OF j(1)] False j(2) show ?thesis by simp
  qed
qed

text \<open>
  Claim C2. \<^verbatim>\<open>extractPartitionKeyFilter\<close> removes at most one predicate: when no
  predicate has the partition-key name as its field and equality as its operator, the
  list comes back unchanged; otherwise the predicate at the first such index \<open>i\<close> is
  the one promoted, no earlier predicate qualifies, and the remaining list is the input
  with position \<open>i\<close> cut out, so the other predicates keep their relative order and
  later qualifying predicates stay in it. \<^verbatim>\<open>addPartitionKeyExpression\<close> sets the key
  condition \<^verbatim>\<open>#pk = :pkVal\<close> and binds \<^verbatim>\<open>#pk\<close> to the field and \<^verbatim>\<open>:pkVal\<close> to the
  encoded value.
\<close>

theorem extractPartitionKeyFilter_first_match:
  "(case extractPartitionKeyFilter pkName fs of
      (None, remaining) \<Rightarrow>
         remaining = fs \<and> \<not> list_ex (isPartitionKeyFilter pkName) fs
    | (Some pkFilter, remaining) \<Rightarrow>
         (\<exists>i < length fs.
            pkFilter = fs ! i \<and> field pkFilter = pkName \<and> operator pkFilter = ''=''
            \<and> \<not> list_ex (isPartitionKeyFilter pkName) (take i fs)
            \<and> remaining = take i fs @ drop (Suc i) fs
            \<and> Suc (length remaining) = length fs))
   \<and> (ExpressionAttributeNames expr = Some ns \<and> ExpressionAttributeValues expr = Some vs \<longrightarrow>
        addPartitionKeyExpression expr pkFilter' =
          Inr (expr\<lparr>KeyConditionExpression := Some ''#pk = :pkVal'',
                    ExpressionAttributeNames := Some (ns(''#pk'' \<mapsto> field pkFilter')),
                    ExpressionAttributeValues :=
                      Some (vs('':pkVal'' \<mapsto> toDynamoDBValue (fvalue pkFilter')))\<rparr>))"
proof (intro conjI impI)
  show "case extractPartitionKeyFilter pkName fs of
      (None, remaining) \<Rightarrow>
         remaining = fs \<and> \<not> list_ex (isPartitionKeyFilter pkName) fs
    | (Some pkFilter, remaining) \<Rightarrow>
         (\<exists>i < length fs.
            pkFilter = fs ! i \<and> field pkFilter = pkName \<and> operator pkFilter = ''=''
            \<and> \<not> list_ex (isPartitionKeyFilter pkName) (take i fs)
            \<and> remaining = take i fs @ drop (Suc i) fs
            \<and> Suc (length remaining) = length fs)"
  proof (cases "findIndex (isPartitionKeyFilter pkName) fs")
    case None
    then have "\<not> list_ex (isPartitionKeyFilter pkName) fs"
      by (simp add: findIndex_None)
    with None show ?thesis
      by (simp add: extractPartitionKeyFilter_def)
  next
    case (Some i)
    from findIndex_Some [OF Some]
    have i: "i < length fs" "isPartitionKeyFilter pkName (fs ! i)"
      "\<not> list_ex (isPartitionKeyFilter pkName) (take i fs)"
      by simp_all
    from i(1) have "Suc (length (take i fs @ drop (Suc i) fs)) = length fs"
      by simp
    with Some i show ?thesis
      by (auto simp: extractPartitionKeyFilter_def splice1_def isPartitionKeyFilter_def)
  qed
next
  assume "ExpressionAttributeNames expr = Some ns \<and> ExpressionAttributeValues expr = Some vs"
  then show "addPartitionKeyExpression expr pkFilter' =
          Inr (expr\<lparr>KeyConditionExpression := Some ''#pk = :pkVal'',
                    ExpressionAttributeNames := Some (ns(''#pk'' \<mapsto> field pkFilter')),
                    ExpressionAttributeValues :=
                      Some (vs('':pkVal'' \<mapsto> toDynamoDBValue (fvalue pkFilter')))\<rparr>)"
    by (simp add: addPartitionKeyExpression_def setName_def setValue_def bindE_def)
qed

theorem extractPartitionKeyFilter_first_match_witness:
  "extractPartitionKeyFilter ''id''
      [\<lparr>field = ''name'', operator = ''like'', fvalue = JStr ''bob''\<rparr>,
       \<lparr>field = ''id'', operator = ''='', fvalue = JStr ''u1''\<rparr>,
       \<lparr>field = ''id'', operator = ''='', fvalue = JStr ''u2''\<rparr>]
     = (Some \<lparr>field = ''id'', operator = ''='', fvalue = JStr ''u1''\<rparr>,
        [\<lparr>field = ''name'', operator = ''like'', fvalue = JStr ''bob''\<rparr>,
         \<lparr>field = ''id'', operator = ''='', fvalue = JStr ''u2''\<rparr>])
   \<and> addPartitionKeyExpression
        \<lparr>KeyConditionExpression = None, FilterExpression = None,
         ExpressionAttributeNames = Some Map.empty, ExpressionAttributeValues = Some Map.empty\<rparr>
        \<lparr>field = ''id'', operator = ''='', fvalue = JStr ''u1''\<rparr>
     = Inr \<lparr>KeyConditionExpression = Some ''#pk = :pkVal'', FilterExpression = None,
            ExpressionAttributeNames = Some [''#pk'' \<mapsto> ''id''],
            ExpressionAttributeValues = Some ['':pkVal'' \<mapsto> AttrS ''u1'']\<rparr>"
  using extractPartitionKeyFilter_first_match
    [where pkName = "''id''" and fs =
        "[\<lparr>field = ''name'', operator = ''like'', fvalue = JStr ''bob''\<rparr>,
          \<lparr>field = ''id'', operator = ''='', fvalue = JStr ''u1''\<rparr>,
          \<lparr>field = ''id'', operator = ''='', fvalue = JStr ''u2''\<rparr>]"
        and expr = "\<lparr>KeyConditionExpression = None, FilterExpression = None,
         ExpressionAttributeNames = Some Map.empty, ExpressionAttributeValues = Some Map.empty\<rparr>"
        and ns = Map.empty and vs = Map.empty and pkFilter' =
        "\<lparr>field = ''id'', operator = ''='', fvalue = JStr ''u1''\<rparr>"]
  by (simp add: extractPartitionKeyFilter_def isPartitionKeyFilter_def splice1_def)

subsection \<open>Pagination normalisation\<close>

lemma bitLength_bounds: "0 < n \<Longrightarrow> 2 ^ (bitLength n - 1) \<le> n \<and> n < 2 ^ bitLength n"
proof (induction n rule: bitLength.induct)
  case (1 n)
  show ?case
  proof (cases "n div 2 = 0")
    case True
    with 1 have "n = 1" by (simp add: div_eq_0_iff)
    then show ?thesis by (simp add: bitLength.simps [of "Suc 0"] bitLength.simps [of 0])
  next
    case False
    with 1 have ih: "2 ^ (bitLength (n div 2) - 1) \<le> n div 2 \<and> n div 2 < 2 ^ bitLength (n div 2)"
      by simp
    from False have pos: "0 < bitLength (n div 2)" by (simp add: bitLength.simps [of "n div 2"])
    have b: "bitLength n = Suc (bitLength (n div 2))" using 1 by (simp add: bitLength.simps [of n])
    from ih pos have "2 ^ bitLength (n div 2) \<le> 2 * (n div 2)"
      by (cases "bitLength (n div 2)") auto
    then have l: "2 ^ bitLength (n div 2) \<le> n" by linarith
    from ih have "n < 2 * 2 ^ bitLength (n div 2)" by linarith
    with l b show ?thesis by simp
  qed
qed

lemma roundHalfEven_of_int: "roundHalfEven (of_int m) = m"
  by (simp add: roundHalfEven_def)

text \<open>An integer of at most 53 bits is a double: the arithmetic is exact up to
  \<open>2 ^ 53\<close>.\<close>

lemma roundToDouble_int:
  assumes "\<bar>k\<bar> \<le> 2 ^ 53"
  shows "roundToDouble (of_int k) = Finite (of_int k)"
proof (cases "k = 0")
  case True
  then show ?thesis by (simp add: roundToDouble_def)
next
  case False
  define n where "n = nat \<bar>k\<bar>"
  define b where "b = bitLength n"
  from False have n0: "0 < n" by (simp add: n_def)
  have ka: "\<bar>real_of_int k\<bar> = real n" by (simp add: n_def)
  from assms have n53: "n \<le> 2 ^ 53" by (simp add: n_def nat_le_iff)
  from bitLength_bounds [OF n0] have lo: "2 ^ (b - 1) \<le> n" and hi: "n < 2 ^ b"
    by (simp_all add: b_def)
  from hi n0 have b1: "1 \<le> b" by (cases b) auto
  from lo n53 have "(2::nat) ^ (b - 1) \<le> 2 ^ 53" by linarith
  then have "b - 1 \<le> 53" by (rule power_le_imp_le_exp [rotated]) simp
  then have b54: "b \<le> 54" by simp
  have ex: "exponent (real n) = int b - 1"
    using n0 by (simp add: exponent_def b_def)
  have mx: "max (int b - 1) (- 1022) = int b - 1" using b1 by simp
  have v: "real_of_int (roundHalfEven (real n / 2 powi (int b - 53))) * 2 powi (int b - 53)
             = real n"
  proof (cases "b = 54")
    case True
    with lo n53 have "n = 2 ^ 53" by simp
    moreover have "real_of_int (roundHalfEven (2 ^ 53 / 2)) = 2 ^ 52"
      using roundHalfEven_of_int [of "2 ^ 52"] by simp
    ultimately show ?thesis using True by simp
  next
    case False
    with b54 have le: "b \<le> 53" by simp
    define d where "d = 53 - b"
    from le have "int b - 53 = - int d" by (simp add: d_def)
    then have u: "(2::real) powi (int b - 53) = inverse (2 ^ d)"
      by (simp add: power_int_minus)
    have "real n / inverse (2 ^ d) = real_of_int (int n * 2 ^ d)"
      by (simp add: field_simps)
    then have "roundHalfEven (real n / inverse (2 ^ d)) = int n * 2 ^ d"
      by (simp only: roundHalfEven_of_int)
    with u show ?thesis by simp
  qed
  have small: "\<not> (2::real) ^ 1024 \<le> real n"
  proof -
    from n53 have "real n \<le> 2 ^ 53" by (metis of_nat_le_iff of_nat_numeral of_nat_power)
    moreover have "(2::real) ^ 53 < 2 ^ 1024" by simp
    ultimately show ?thesis by linarith
  qed
  from False have nz: "real_of_int k \<noteq> 0" by simp
  have "roundToDouble (of_int k) = Finite (if real_of_int k < 0 then - real n else real n)"
    using nz small by (simp add: roundToDouble_def ex mx ka v Let_def)
  also have "(if real_of_int k < 0 then - real n else real n) = real_of_int k"
    by (simp add: n_def)
  finally show ?thesis .
qed

lemma roundToDouble_Ints:
  assumes "x \<in> \<int>" and "\<bar>x\<bar> \<le> 2 ^ 53"
  shows "roundToDouble x = Finite x"
proof -
  from assms(1) obtain k where k: "x = of_int k" by (auto elim: Ints_cases)
  with assms(2) have "real_of_int \<bar>k\<bar> \<le> real_of_int (2 ^ 53)" by simp
  then have "\<bar>k\<bar> \<le> 2 ^ 53" by (simp only: of_int_le_iff)
  with k show ?thesis by (simp add: roundToDouble_int)
qed

lemma validatePagination_empty: "validatePagination emptyPagination = Inr ()"
  by (simp add: validatePagination_def emptyPagination_def isInteger_def)

lemma calculatePaginationValues_empty:
  "calculatePaginationValues emptyPagination = (Finite 100, Finite 0)"
  by (simp add: calculatePaginationValues_def emptyPagination_def normalizedPage_def
        normalizedLimit_def mathMax_def numSub_def roundToDouble_Ints Let_def)

text \<open>
  What the code does with a pagination that passes the validator. The page is as in
  the spec (\<^verbatim>\<open>null\<close> floors to 0 and is raised to 1); the limit is as in the spec
  unless it is \<^verbatim>\<open>null\<close>; the offset is the given number when that is not below zero,
  and the product \<^verbatim>\<open>(page - 1) * limit\<close> of the doubles otherwise.
\<close>

lemma normalizedPage_spec:
  "normalizedPage p
     = mathMax (Finite 1) (mathFloor (nullishCoalescing (page p) (Finite 1)))"
  by (cases "page p") (simp_all add: normalizedPage_def mathMax_def)

lemma normalizedLimit_spec:
  "limit p \<noteq> Null \<Longrightarrow> normalizedLimit p = spec_limit p"
  by (cases "limit p") (simp_all add: normalizedLimit_def spec_limit_def)

lemma calculatePaginationValues_offset:
  "calculatePaginationValues p
     = (normalizedLimit p,
        case offset p of
          Number off \<Rightarrow>
            if numGe off (Finite 0) \<or> off = NaN then off
            else numMul (numSub (normalizedPage p) (Finite 1)) (normalizedLimit p)
        | _ \<Rightarrow> numMul (numSub (normalizedPage p) (Finite 1)) (normalizedLimit p))"
  by (auto simp: calculatePaginationValues_def Let_def numGe_def split: numprop.splits)

lemma defaultTo_defined: "defaultTo v d \<noteq> Undefined"
  by (cases v) simp_all

lemma validatePagination_integers:
  assumes "validatePagination p = Inr ()"
  shows "isIntegerNumber (toNumber (defaultTo (page p) (Finite 1)))"
    and "limit p = Undefined \<or> isIntegerNumber (toNumber (limit p))"
    and "isIntegerNumber (toNumber (defaultTo (offset p) (Finite 0)))"
  using assms
  by (simp_all add: validatePagination_def Let_def defaultTo_defined split: if_splits)

lemma pagination_examples:
  "validatePagination (emptyPagination\<lparr>page := Number (Finite 2), limit := Number (Finite 10)\<rparr>)
     = Inr ()
   \<and> calculatePaginationValues
        (emptyPagination\<lparr>page := Number (Finite 2), limit := Number (Finite 10)\<rparr>)
     = (Finite 10, Finite 10)
   \<and> validatePagination (emptyPagination\<lparr>limit := Number (Finite (- 5))\<rparr>) = Inr ()
   \<and> calculatePaginationValues (emptyPagination\<lparr>limit := Number (Finite (- 5))\<rparr>)
     = (Finite 0, Finite 0)
   \<and> validatePagination
        (emptyPagination\<lparr>page := Number (Finite 1), limit := Number (Finite 10),
                          offset := Number (Finite (- 1))\<rparr>) = Inr ()
   \<and> calculatePaginationValues
        (emptyPagination\<lparr>page := Number (Finite 1), limit := Number (Finite 10),
                          offset := Number (Finite (- 1))\<rparr>)
     = (Finite 10, Finite 0)
   \<and> validatePagination (emptyPagination\<lparr>page := Number (Finite (5 / 2))\<rparr>)
     = Inl (DynamoValidationError ''Page must be an integer'')
   \<and> validatePagination (emptyPagination\<lparr>limit := Number NaN\<rparr>)
     = Inl (DynamoValidationError ''Limit must be an integer'')"
  by (simp add: validatePagination_def calculatePaginationValues_def emptyPagination_def
        normalizedPage_def normalizedLimit_def mathMax_def numSub_def isInteger_def
        roundToDouble_Ints Let_def)

text \<open>
  Claim C3. The claim has the limit normalised to \<^verbatim>\<open>max(0, floor(limit ?? 100))\<close>,
  which is 100 for the pagination \<^verbatim>\<open>{limit: null}\<close>. On the code this pagination passes
  \<^verbatim>\<open>validatePagination\<close>, since \<^verbatim>\<open>Number(null)\<close> is the integer 0, and the default of
  the destructuring \<^verbatim>\<open>limit = 100\<close> applies to \<^verbatim>\<open>undefined\<close> only: \<^verbatim>\<open>Math.floor(null)\<close>
  is 0, the limit is 0, and the request is the one of the limit-zero short circuit,
  with an empty page. For an absent limit the code gives the 100 that the comment of
  the method has as the default of an invalid limit.
\<close>

theorem calculatePaginationValues_null_limit:
  "validatePagination (emptyPagination\<lparr>limit := Null\<rparr>) = Inr ()
   \<and> calculatePaginationValues (emptyPagination\<lparr>limit := Null\<rparr>) = (Finite 0, Finite 0)
   \<and> spec_limit (emptyPagination\<lparr>limit := Null\<rparr>) = Finite 100
   \<and> prepareQueryParameters ''users'' ''id''
        \<lparr>filters = Some [\<lparr>field = ''name'', operator = ''='', fvalue = JStr ''bob''\<rparr>],
         pagination = Some (emptyPagination\<lparr>limit := Null\<rparr>)\<rparr>
     = Inr (tableOnly ''users'', Finite 0, Finite 0, emptyPagination\<lparr>limit := Null\<rparr>)
   \<and> calculatePaginationValues emptyPagination = (Finite 100, Finite 0)"
proof -
  have v: "validatePagination (emptyPagination\<lparr>limit := Null\<rparr>) = Inr ()"
    by (simp add: validatePagination_def emptyPagination_def isInteger_def)
  have c: "calculatePaginationValues (emptyPagination\<lparr>limit := Null\<rparr>) = (Finite 0, Finite 0)"
    by (simp add: calculatePaginationValues_def emptyPagination_def normalizedPage_def
          normalizedLimit_def mathMax_def numSub_def roundToDouble_Ints Let_def)
  have s: "spec_limit (emptyPagination\<lparr>limit := Null\<rparr>) = Finite 100"
    by (simp add: spec_limit_def emptyPagination_def mathMax_def)
  have p: "prepareQueryParameters ''users'' ''id''
        \<lparr>filters = Some [\<lparr>field = ''name'', operator = ''='', fvalue = JStr ''bob''\<rparr>],
         pagination = Some (emptyPagination\<lparr>limit := Null\<rparr>)\<rparr>
     = Inr (tableOnly ''users'', Finite 0, Finite 0, emptyPagination\<lparr>limit := Null\<rparr>)"
    by (simp add: prepareQueryParameters_def orDefault_def v c bindE_def)
  from v c s p calculatePaginationValues_empty show ?thesis by simp
qed

subsection \<open>Null and undefined values\<close>

lemma validateFieldName_name: "validateFieldName ''name'' = Inr ()"
  by (simp add: validateFieldName_eval includes_str_hd toLowerCase_def lowerChar_def
        startsWith_def MAX_FIELD_DEPTH_def validateFieldPart_def MAX_FIELD_LENGTH_def
        VALID_FIELD_REGEX_def isLower_def isUpper_def isDigit_def isIdentChar_def)

text \<open>
  Claim C5. The claim has \<^verbatim>\<open>validateValue\<close> fail with the validation error on
  \<^verbatim>\<open>null\<close> and \<^verbatim>\<open>undefined\<close>. On the code the failure is a \<^verbatim>\<open>TypeError\<close>: the
  logging statements ahead of the null test call \<^verbatim>\<open>hasOwnProperty\<close> on the value. The
  failure does come before any request: the compiler fails the same way and the
  executor sends no command.
\<close>

theorem validateValue_null_undefined:
  "validateValue JNull = Inl (TypeError ''Cannot convert undefined or null to object'')
   \<and> validateValue JUndefined = Inl (TypeError ''Cannot convert undefined or null to object'')
   \<and> buildFilterExpression ''id'' [\<lparr>field = ''name'', operator = ''='', fvalue = JNull\<rparr>]
       = Inl (TypeError ''Cannot convert undefined or null to object'')
   \<and> fetchWithFiltersAndPagination h ''users'' ''id''
         \<lparr>filters = Some [\<lparr>field = ''name'', operator = ''='', fvalue = JNull\<rparr>],
          pagination = None\<rparr> dynamoDBClient
       = ([], Inl (TypeError ''Cannot convert undefined or null to object''))"
proof -
  have n: "validateValue JNull = Inl (TypeError ''Cannot convert undefined or null to object'')"
    by (simp add: validateValue.simps hasOwnPropertyCall_def)
  have u: "validateValue JUndefined = Inl (TypeError ''Cannot convert undefined or null to object'')"
    by (simp add: validateValue.simps hasOwnPropertyCall_def)
  note f = validateFieldName_name
  have b: "buildFilterExpression ''id'' [\<lparr>field = ''name'', operator = ''='', fvalue = JNull\<rparr>]
       = Inl (TypeError ''Cannot convert undefined or null to object'')"
    by (simp add: buildFilterExpression_def validateFilter_def f n bindE_def)
  note p = validatePagination_empty and c = calculatePaginationValues_empty
  have "fetchWithFiltersAndPagination h ''users'' ''id''
         \<lparr>filters = Some [\<lparr>field = ''name'', operator = ''='', fvalue = JNull\<rparr>],
          pagination = None\<rparr> dynamoDBClient
       = ([], Inl (TypeError ''Cannot convert undefined or null to object''))"
    by (simp add: fetchWithFiltersAndPagination_def prepareQueryParameters_def orDefault_def
          p c b bindE_def)
  with n u b show ?thesis by simp
qed

subsection \<open>The two executors\<close>

lemma buildQueryParams_no_sort:
  "sortKeyOf pg = None \<Longrightarrow> buildQueryParams tableName expr (Some pg) = buildQueryParams tableName expr None"
  by (simp add: buildQueryParams_def)

lemma prepare_plain:
  "sortKeyOf (orDefault (pagination query) emptyPagination) = None \<Longrightarrow>
   prepareQueryParameters_plain tableName pkName query =
     bindE (prepareQueryParameters tableName pkName query)
       (\<lambda>(params, lmt, off, pg). Inr (params, lmt, off))"
  by (simp add: prepareQueryParameters_def prepareQueryParameters_plain_def Let_def bindE_def
        buildQueryParams_no_sort split: sum.splits prod.splits)

lemma prepare_pg:
  "prepareQueryParameters tableName pkName query = Inr (params, lmt, off, pg) \<Longrightarrow>
   pg = orDefault (pagination query) emptyPagination"
  by (auto simp: prepareQueryParameters_def Let_def bindE_def split: sum.splits prod.splits if_splits)

lemma executeQuery_no_sort:
  "sortKeyOf pg = None \<Longrightarrow> executeQuery h params client pg = executeQuery_plain params client"
  by (simp add: executeQuery_def executeQuery_plain_def Let_def)

text \<open>
  Claim C9. For a query with no \<^verbatim>\<open>sortBy\<close> (absent or empty), the executor without
  the client-side sort and the one with it prepare the same request, limit and offset,
  send the same commands and return the same result against the same store client.
\<close>

theorem executors_agree_without_sortBy:
  assumes "sortKeyOf (orDefault (pagination query) emptyPagination) = None"
  shows "fetchWithFiltersAndPagination_plain tableName pkName query dynamoDBClient
           = fetchWithFiltersAndPagination h tableName pkName query dynamoDBClient
         \<and> prepareQueryParameters_plain tableName pkName query
           = bindE (prepareQueryParameters tableName pkName query)
               (\<lambda>(params, lmt, off, pg). Inr (params, lmt, off))"
proof (cases "prepareQueryParameters tableName pkName query")
  case (Inl e)
  with prepare_plain [OF assms, of tableName pkName] show ?thesis
    by (simp add: fetchWithFiltersAndPagination_def fetchWithFiltersAndPagination_plain_def
          bindE_def)
next
  case (Inr r)
  obtain params lmt off pg where r: "r = (params, lmt, off, pg)"
    by (cases r) auto
  from prepare_pg Inr r have "pg = orDefault (pagination query) emptyPagination"
    by blast
  with assms have "sortKeyOf pg = None" by simp
  from executeQuery_no_sort [OF this] prepare_plain [OF assms, of tableName pkName] Inr r
  show ?thesis
    by (simp add: fetchWithFiltersAndPagination_def fetchWithFiltersAndPagination_plain_def
          bindE_def)
qed

theorem executors_agree_without_sortBy_witness:
  "sortKeyOf (orDefault (pagination
       \<lparr>filters = Some [\<lparr>field = ''name'', operator = ''='', fvalue = JStr ''bob''\<rparr>],
        pagination = Some (emptyPagination\<lparr>limit := Number (Finite 10)\<rparr>)\<rparr>) emptyPagination) = None
   \<and> fetchWithFiltersAndPagination_plain ''users'' ''id''
       \<lparr>filters = Some [\<lparr>field = ''name'', operator = ''='', fvalue = JStr ''bob''\<rparr>],
        pagination = Some (emptyPagination\<lparr>limit := Number (Finite 10)\<rparr>)\<rparr>
       (\<lambda>cmd. Inr \<lparr>Items = Some [[(''name'', AttrS ''bob'')]]\<rparr>)
     = fetchWithFiltersAndPagination sampleHost ''users'' ''id''
       \<lparr>filters = Some [\<lparr>field = ''name'', operator = ''='', fvalue = JStr ''bob''\<rparr>],
        pagination = Some (emptyPagination\<lparr>limit := Number (Finite 10)\<rparr>)\<rparr>
       (\<lambda>cmd. Inr \<lparr>Items = Some [[(''name'', AttrS ''bob'')]]\<rparr>)"
  using executors_agree_without_sortBy
    [where query = "\<lparr>filters = Some [\<lparr>field = ''name'', operator = ''='', fvalue = JStr ''bob''\<rparr>],
        pagination = Some (emptyPagination\<lparr>limit := Number (Finite 10)\<rparr>)\<rparr>"
       and tableName = "''users''" and pkName = "''id''" and h = sampleHost
       and dynamoDBClient = "\<lambda>cmd. Inr \<lparr>Items = Some [[(''name'', AttrS ''bob'')]]\<rparr>"]
  by (simp add: sortKeyOf_def truthy_def orDefault_def emptyPagination_def)

subsection \<open>The limit-zero short circuit\<close>









subsection \<open>Failure and success of the compilation\<close>

lemma lookupOperator_None:
  "lookupOperator op = None \<longleftrightarrow>
     op \<notin> set supportedOperators \<and> op \<notin> set objectPrototypeMembers"
proof -
  have "map_of operatorMap op = None \<longleftrightarrow> op \<notin> fst ` set operatorMap"
    by (rule map_of_eq_None_iff)
  then show ?thesis
    by (cases "map_of operatorMap op") (auto simp: lookupOperator_def supportedOperators_def)
qed

lemma lookupOperator_special:
  "op = ''like'' \<or> op = ''not like'' \<or> op = ''in'' \<or> op = ''not in'' \<Longrightarrow>
     lookupOperator op \<noteq> None"
  by (auto simp: lookupOperator_def operatorMap_def)

lemma setName_hasMaps:
  "hasMaps e \<Longrightarrow> \<exists>e'. setName e k v = Inr e' \<and> hasMaps e'
      \<and> KeyConditionExpression e' = KeyConditionExpression e
      \<and> FilterExpression e' = FilterExpression e"
  by (auto simp: setName_def hasMaps_def)

lemma setValue_hasMaps:
  "hasMaps e \<Longrightarrow> \<exists>e'. setValue e k v = Inr e' \<and> hasMaps e'
      \<and> KeyConditionExpression e' = KeyConditionExpression e
      \<and> FilterExpression e' = FilterExpression e"
  by (auto simp: setValue_def hasMaps_def)

lemma setPathNames_hasMaps:
  "hasMaps e \<Longrightarrow> \<exists>e'. setPathNames e index idx parts = Inr e' \<and> hasMaps e'"
proof (induction parts arbitrary: e idx)
  case Nil
  then show ?case by simp
next
  case (Cons p ps)
  from setName_hasMaps [OF Cons.prems] obtain e1
    where e1: "setName e (nameKey index idx) p = Inr e1" "hasMaps e1" by blast
  from Cons.IH [OF e1(2)] e1(1) show ?case
    by (simp add: bindE_def)
qed

lemma inChecks_hasMaps:
  "hasMaps e \<Longrightarrow> \<exists>e' cs. inChecks e path index valIndex vs = Inr (e', cs) \<and> hasMaps e'"
proof (induction vs arbitrary: e valIndex)
  case Nil
  then show ?case by simp
next
  case (Cons v vs)
  from setValue_hasMaps [OF Cons.prems] obtain e1
    where e1: "setValue e (valKeyIn index valIndex) (toDynamoDBValue v) = Inr e1" "hasMaps e1"
    by blast
  from Cons.IH [OF e1(2)] obtain e2 cs
    where "inChecks e1 path index (Suc valIndex) vs = Inr (e2, cs)" "hasMaps e2" by blast
  with e1(1) show ?case
    by (simp add: bindE_def)
qed

lemma buildInExpression_hasMaps:
  "hasMaps e \<Longrightarrow> \<exists>e' s. buildInExpression e path v index isNot = Inr (e', s) \<and> hasMaps e'"
proof -
  assume "hasMaps e"
  from inChecks_hasMaps [OF this] obtain e' cs
    where "inChecks e path index 0 (case v of JArr vs \<Rightarrow> vs | _ \<Rightarrow> [v]) = Inr (e', cs)"
      "hasMaps e'" by blast
  then show ?thesis
    by (simp add: buildInExpression_def bindE_def Let_def)
qed

lemma containsExpressions_hasMaps:
  "hasMaps e \<Longrightarrow>
     \<exists>e' cs. containsExpressions e path index isNot termIndex ts = Inr (e', cs) \<and> hasMaps e'"
proof (induction ts arbitrary: e termIndex)
  case Nil
  then show ?case by simp
next
  case (Cons t ts)
  from setValue_hasMaps [OF Cons.prems] obtain e1
    where e1: "setValue e (valKeyLike index termIndex ''l'')
                 (toDynamoDBValue (JStr (toLowerCase t))) = Inr e1" "hasMaps e1"
    by blast
  from setValue_hasMaps [OF e1(2)] obtain e2
    where e2: "setValue e1 (valKeyLike index termIndex ''u'')
                 (toDynamoDBValue (JStr (toUpperCase t))) = Inr e2" "hasMaps e2"
    by blast
  from setValue_hasMaps [OF e2(2)] obtain e3
    where e3: "setValue e2 (valKeyLike index termIndex ''o'') (toDynamoDBValue (JStr t)) = Inr e3"
      "hasMaps e3"
    by blast
  from Cons.IH [OF e3(2)] obtain e4 cs
    where "containsExpressions e3 path index isNot (Suc termIndex) ts = Inr (e4, cs)"
      "hasMaps e4" by blast
  with e1(1) e2(1) e3(1) show ?case
    by (simp add: bindE_def)
qed

lemma buildLikeExpression_hasMaps:
  "hasMaps e \<Longrightarrow> \<exists>e' s. buildLikeExpression e path v index isNot = Inr (e', s) \<and> hasMaps e'"
proof -
  assume h: "hasMaps e"
  from containsExpressions_hasMaps [OF h] obtain e' cs
    where "containsExpressions e path index isNot 0 (searchTerms v) = Inr (e', cs)"
      "hasMaps e'" by blast
  with h show ?thesis
    by (simp add: buildLikeExpression_def bindE_def)
qed

lemma buildBasicExpression_unsupported:
  "hasMaps e \<Longrightarrow> lookupOperator op = None \<Longrightarrow>
     buildBasicExpression e path op v index
       = Inl (DynamoValidationError (''Unsupported operator: '' @ op))"
  using setValue_hasMaps [of e "valKey index" "toDynamoDBValue v"]
  by (auto simp: buildBasicExpression_def bindE_def)

lemma buildBasicExpression_hasMaps:
  "hasMaps e \<Longrightarrow> lookupOperator op \<noteq> None \<Longrightarrow>
     \<exists>e' s. buildBasicExpression e path op v index = Inr (e', s) \<and> hasMaps e'"
  using setValue_hasMaps [of e "valKey index" "toDynamoDBValue v"]
  by (auto simp: buildBasicExpression_def bindE_def)

lemma buildSubExpression_unsupported:
  assumes "hasMaps e" "lookupOperator op = None"
  shows "buildSubExpression e fld op v index
           = Inl (DynamoValidationError (''Unsupported operator: '' @ op))"
proof -
  from setPathNames_hasMaps [OF assms(1)] obtain e1
    where e1: "setPathNames e index 0 (splitOn (CHR ''.'') fld) = Inr e1" "hasMaps e1"
    by blast
  from lookupOperator_special [of op] assms(2)
  have "\<not> (op = ''like'' \<or> op = ''not like'')" "\<not> (op = ''in'' \<or> op = ''not in'')"
    by auto
  with e1 buildBasicExpression_unsupported [OF e1(2) assms(2)] show ?thesis
    by (simp add: buildSubExpression_def Let_def bindE_def)
qed

lemma buildSubExpression_hasMaps:
  assumes "hasMaps e" "lookupOperator op \<noteq> None"
  shows "\<exists>e' s. buildSubExpression e fld op v index = Inr (e', s) \<and> hasMaps e'"
proof -
  from setPathNames_hasMaps [OF assms(1)] obtain e1
    where e1: "setPathNames e index 0 (splitOn (CHR ''.'') fld) = Inr e1" "hasMaps e1"
    by blast
  from e1 buildLikeExpression_hasMaps [OF e1(2)] buildInExpression_hasMaps [OF e1(2)]
    buildBasicExpression_hasMaps [OF e1(2) assms(2)]
  show ?thesis
    by (simp add: buildSubExpression_def Let_def bindE_def)
qed

lemma subExpressions_unsupported:
  "hasMaps e \<Longrightarrow> f \<in> set fs \<Longrightarrow> lookupOperator (operator f) = None \<Longrightarrow>
     \<exists>g. g \<in> set fs \<and> lookupOperator (operator g) = None
        \<and> subExpressions e i fs
            = Inl (DynamoValidationError (''Unsupported operator: '' @ operator g))"
proof (induction fs arbitrary: e i)
  case Nil
  then show ?case by simp
next
  case (Cons h fs)
  show ?case
  proof (cases "lookupOperator (operator h) = None")
    case True
    from buildSubExpression_unsupported [OF Cons.prems(1) True]
    have "subExpressions e i (h # fs)
            = Inl (DynamoValidationError (''Unsupported operator: '' @ operator h))"
      by (simp add: bindE_def)
    with True show ?thesis by auto
  next
    case False
    with Cons.prems have f: "f \<in> set fs" by auto
    from buildSubExpression_hasMaps [OF Cons.prems(1) False] obtain e1 s
      where e1: "buildSubExpression e (field h) (operator h) (fvalue h) i = Inr (e1, s)"
        "hasMaps e1" by blast
    from Cons.IH [OF e1(2) f Cons.prems(3)] obtain g
      where g: "g \<in> set fs" "lookupOperator (operator g) = None"
        "subExpressions e1 (Suc i) fs
           = Inl (DynamoValidationError (''Unsupported operator: '' @ operator g))"
      by blast
    from e1(1) g(3) have "subExpressions e i (h # fs)
           = Inl (DynamoValidationError (''Unsupported operator: '' @ operator g))"
      by (simp add: bindE_def)
    with g show ?thesis by auto
  qed
qed

lemma subExpressions_hasMaps:
  "hasMaps e \<Longrightarrow> list_all (\<lambda>f. lookupOperator (operator f) \<noteq> None) fs \<Longrightarrow>
     \<exists>e' ss. subExpressions e i fs = Inr (e', ss) \<and> hasMaps e' \<and> length ss = length fs"
proof (induction fs arbitrary: e i)
  case Nil
  then show ?case by simp
next
  case (Cons h fs)
  from Cons.prems have h: "lookupOperator (operator h) \<noteq> None"
    and r: "list_all (\<lambda>f. lookupOperator (operator f) \<noteq> None) fs" by simp_all
  from buildSubExpression_hasMaps [OF Cons.prems(1) h] obtain e1 s
    where e1: "buildSubExpression e (field h) (operator h) (fvalue h) i = Inr (e1, s)"
      "hasMaps e1" by blast
  from Cons.IH [OF e1(2) r] obtain e2 ss
    where "subExpressions e1 (Suc i) fs = Inr (e2, ss)" "hasMaps e2" "length ss = length fs"
    by blast
  with e1(1) show ?case
    by (simp add: bindE_def)
qed

lemma set_splice1:
  "i < length xs \<Longrightarrow> set xs = insert (xs ! i) (set (splice1 i xs))"
proof -
  assume "i < length xs"
  then have "xs = take i xs @ xs ! i # drop (Suc i) xs"
    by (simp add: id_take_nth_drop)
  then have "set xs = set (take i xs @ xs ! i # drop (Suc i) xs)" by simp
  then show ?thesis by (simp add: splice1_def)
qed

lemma extract_remaining_unsupported:
  assumes "f \<in> set fs" "lookupOperator (operator f) = None"
  shows "f \<in> set (snd (extractPartitionKeyFilter pkName fs))"
proof (cases "findIndex (isPartitionKeyFilter pkName) fs")
  case None
  with assms(1) show ?thesis by (simp add: extractPartitionKeyFilter_def)
next
  case (Some i)
  from findIndex_Some [OF Some] have i: "i < length fs" "isPartitionKeyFilter pkName (fs ! i)"
    by simp_all
  from i(2) have "lookupOperator (operator (fs ! i)) \<noteq> None"
    by (simp add: isPartitionKeyFilter_def lookupOperator_def operatorMap_def)
  with assms(2) have "f \<noteq> fs ! i" by auto
  with set_splice1 [OF i(1)] assms(1) have "f \<in> set (splice1 i fs)" by auto
  with Some show ?thesis by (simp add: extractPartitionKeyFilter_def)
qed

lemma addPartitionKeyExpression_hasMaps:
  "hasMaps e \<Longrightarrow> \<exists>e'. addPartitionKeyExpression e pk = Inr e' \<and> hasMaps e'"
proof -
  assume h: "hasMaps e"
  let ?e0 = "e\<lparr>KeyConditionExpression := Some ''#pk = :pkVal''\<rparr>"
  from h have "hasMaps ?e0" by (simp add: hasMaps_def)
  from setName_hasMaps [OF this] obtain e1
    where e1: "setName ?e0 ''#pk'' (field pk) = Inr e1" "hasMaps e1" by blast
  from setValue_hasMaps [OF e1(2)] obtain e2
    where "setValue e1 '':pkVal'' (toDynamoDBValue (fvalue pk)) = Inr e2" "hasMaps e2" by blast
  with e1(1) show ?thesis
    by (simp add: addPartitionKeyExpression_def bindE_def)
qed

lemma buildFilterExpression_unsupported:
  assumes "f \<in> set fs" "lookupOperator (operator f) = None"
    and "firstError (map validateFilter fs) = Inr ()"
  shows "\<exists>g. g \<in> set fs \<and> lookupOperator (operator g) = None
           \<and> buildFilterExpression pkName fs
               = Inl (DynamoValidationError (''Unsupported operator: '' @ operator g))"
proof -
  obtain pkf rest where ex: "extractPartitionKeyFilter pkName fs = (pkf, rest)"
    by (cases "extractPartitionKeyFilter pkName fs") auto
  from extract_remaining_unsupported [OF assms(1,2), of pkName] ex
  have fr: "f \<in> set rest" by simp
  then have ne: "rest \<noteq> []" "fs \<noteq> []" using assms(1) by auto
  let ?e0 = "\<lparr>KeyConditionExpression = None, FilterExpression = None,
              ExpressionAttributeNames = Some Map.empty,
              ExpressionAttributeValues = Some Map.empty\<rparr>"
  have h0: "hasMaps ?e0" by (simp add: hasMaps_def)
  have "\<exists>e1. (case pkf of None \<Rightarrow> Inr ?e0 | Some pk \<Rightarrow> addPartitionKeyExpression ?e0 pk) = Inr e1
          \<and> hasMaps e1"
    using h0 addPartitionKeyExpression_hasMaps [OF h0] by (cases pkf) auto
  then obtain e1
    where e1: "(case pkf of None \<Rightarrow> Inr ?e0 | Some pk \<Rightarrow> addPartitionKeyExpression ?e0 pk) = Inr e1"
      "hasMaps e1" by blast
  from subExpressions_unsupported [OF e1(2) fr assms(2), of 0] obtain g
    where g: "g \<in> set rest" "lookupOperator (operator g) = None"
      "subExpressions e1 0 rest
         = Inl (DynamoValidationError (''Unsupported operator: '' @ operator g))"
    by blast
  have sub: "set rest \<subseteq> set fs"
  proof (cases "findIndex (isPartitionKeyFilter pkName) fs")
    case None
    with ex show ?thesis by (simp add: extractPartitionKeyFilter_def)
  next
    case (Some i)
    from findIndex_Some [OF Some] have "i < length fs" by simp
    from set_splice1 [OF this] Some ex show ?thesis
      by (auto simp: extractPartitionKeyFilter_def)
  qed
  from ne assms(3) ex e1(1) g(3)
  have "buildFilterExpression pkName fs
          = Inl (DynamoValidationError (''Unsupported operator: '' @ operator g))"
    by (simp add: buildFilterExpression_def bindE_def addFilterExpressions_def)
  with g(1,2) sub show ?thesis by auto
qed


lemma validateFieldName_age: "validateFieldName ''age'' = Inr ()"
  by (simp add: validateFieldName_eval includes_str_hd toLowerCase_def lowerChar_def
        startsWith_def MAX_FIELD_DEPTH_def validateFieldPart_def MAX_FIELD_LENGTH_def
        VALID_FIELD_REGEX_def isLower_def isUpper_def isDigit_def isIdentChar_def)

lemma validateValue_JNum_1: "validateValue (JNum 1) = Inr ()"
  by (simp add: validateValue_eval includes_str_hd hasOwnPropertyCall_def showInt_def
        showNat.simps toLowerCase_def lowerChar_def startsWith_def)

text \<open>
  Claim C6, as the code has it. When the filters pass validation and one of them has an
  operator outside the table (and not the name of a member inherited from
  \<^verbatim>\<open>Object.prototype\<close>, which the lookup would find), the compilation fails with
  \<^verbatim>\<open>DynamoValidationError\<close> and the message \<^verbatim>\<open>Unsupported operator:\<close> followed by such
  an operator of the list; the executor then sends no command. The error is of the class
  that the validator throws: the code has no other class for it, as the counterexample
  shows beside a validation failure.
\<close>

theorem unsupported_operator_fails:
  assumes "f \<in> set fs"
    and "operator f \<notin> set supportedOperators"
    and "operator f \<notin> set objectPrototypeMembers"
    and "firstError (map validateFilter fs) = Inr ()"
  shows "\<exists>g. g \<in> set fs \<and> operator g \<notin> set supportedOperators
           \<and> buildFilterExpression pkName fs
               = Inl (DynamoValidationError (''Unsupported operator: '' @ operator g))
           \<and> (validatePagination pg = Inr () \<and> normalizedLimit pg \<noteq> Finite 0 \<longrightarrow>
                fetchWithFiltersAndPagination h tableName pkName
                  \<lparr>filters = Some fs, pagination = Some pg\<rparr> dynamoDBClient
                = ([], Inl (DynamoValidationError (''Unsupported operator: '' @ operator g))))"
proof -
  from assms(2,3) have "lookupOperator (operator f) = None"
    by (simp add: lookupOperator_None)
  from buildFilterExpression_unsupported [OF assms(1) this assms(4), of pkName] obtain g
    where g: "g \<in> set fs" "lookupOperator (operator g) = None"
      "buildFilterExpression pkName fs
         = Inl (DynamoValidationError (''Unsupported operator: '' @ operator g))"
    by blast
  have "fetchWithFiltersAndPagination h tableName pkName
          \<lparr>filters = Some fs, pagination = Some pg\<rparr> dynamoDBClient
        = ([], Inl (DynamoValidationError (''Unsupported operator: '' @ operator g)))"
    if "validatePagination pg = Inr ()" "normalizedLimit pg \<noteq> Finite 0"
    using that g(3)
    by (simp add: fetchWithFiltersAndPagination_def prepareQueryParameters_def orDefault_def
          calculatePaginationValues_def Let_def bindE_def)
  with g show ?thesis
    by (auto simp: lookupOperator_None)
qed

theorem unsupported_operator_fails_witness:
  "buildFilterExpression ''id'' [\<lparr>field = ''age'', operator = ''~'', fvalue = JNum 1\<rparr>]
     = Inl (DynamoValidationError ''Unsupported operator: ~'')
   \<and> fetchWithFiltersAndPagination sampleHost ''users'' ''id''
         \<lparr>filters = Some [\<lparr>field = ''age'', operator = ''~'', fvalue = JNum 1\<rparr>],
          pagination = Some emptyPagination\<rparr> (scanAll [])
     = ([], Inl (DynamoValidationError ''Unsupported operator: ~''))"
proof -
  have v: "firstError (map validateFilter [\<lparr>field = ''age'', operator = ''~'', fvalue = JNum 1\<rparr>])
             = Inr ()"
    by (simp add: validateFilter_def validateFieldName_age validateValue_JNum_1 bindE_def)
  have s: "operator \<lparr>field = ''age'', operator = ''~'', fvalue = JNum 1\<rparr>
             \<notin> set supportedOperators"
    by (simp add: supportedOperators_def operatorMap_def)
  have p: "operator \<lparr>field = ''age'', operator = ''~'', fvalue = JNum 1\<rparr>
             \<notin> set objectPrototypeMembers"
    by (simp add: objectPrototypeMembers_def)
  have n: "normalizedLimit emptyPagination \<noteq> Finite 0"
    by (simp add: normalizedLimit_def emptyPagination_def mathMax_def)
  from unsupported_operator_fails [OF _ s p v, where pkName = "''id''" and pg = emptyPagination
      and h = sampleHost and tableName = "''users''" and dynamoDBClient = "scanAll []"]
    validatePagination_empty n
  show ?thesis by simp
qed

theorem unsupported_operator_error_kind_counterexample:
  "buildFilterExpression ''id'' [\<lparr>field = ''age'', operator = ''~'', fvalue = JNum 1\<rparr>]
     = Inl (DynamoValidationError ''Unsupported operator: ~'')
   \<and> validateFieldName [] = Inl (DynamoValidationError ''Field name cannot be empty'')"
proof -
  have v: "firstError (map validateFilter [\<lparr>field = ''age'', operator = ''~'', fvalue = JNum 1\<rparr>])
             = Inr ()"
    by (simp add: validateFilter_def validateFieldName_age validateValue_JNum_1 bindE_def)
  have l: "lookupOperator ''~'' = None"
    by (simp add: lookupOperator_def operatorMap_def objectPrototypeMembers_def)
  have "buildFilterExpression ''id'' [\<lparr>field = ''age'', operator = ''~'', fvalue = JNum 1\<rparr>]
     = Inl (DynamoValidationError ''Unsupported operator: ~'')"
    using buildFilterExpression_unsupported
      [of "\<lparr>field = ''age'', operator = ''~'', fvalue = JNum 1\<rparr>"
          "[\<lparr>field = ''age'', operator = ''~'', fvalue = JNum 1\<rparr>]" "''id''"] v l
    by simp
  then show ?thesis
    by (simp add: validateFieldName_def)
qed

subsection \<open>Placeholders of distinct indices are distinct\<close>

lemma lt10_cases:
  "k < 10 \<Longrightarrow> k = 0 \<or> k = 1 \<or> k = 2 \<or> k = 3 \<or> k = 4 \<or> k = 5 \<or> k = 6 \<or> k = 7 \<or> k = 8 \<or> k = (9::nat)"
  by arith

lemma digitVal_digit: "k < 10 \<Longrightarrow> digitVal (''0123456789'' ! k) = k"
  by (drule lt10_cases) (auto simp: digitVal_def upt_conv_Cons)

lemma isDigit_digit: "k < 10 \<Longrightarrow> isDigit (''0123456789'' ! k)"
  by (drule lt10_cases) (auto simp: isDigit_def)

lemma readNat_snoc: "readNat (s @ [c]) = 10 * readNat s + digitVal c"
  by (simp add: readNat_def)

lemma readNat_showNat: "readNat (showNat n) = n"
proof (induction n rule: showNat.induct)
  case (1 n)
  show ?case
  proof (cases "n < 10")
    case True
    then show ?thesis
      by (simp add: showNat.simps [of n] readNat_def digitVal_digit)
  next
    case False
    with "1" have "readNat (showNat (n div 10)) = n div 10" by simp
    with False show ?thesis
      by (simp add: showNat.simps [of n] readNat_snoc digitVal_digit)
  qed
qed

lemma showNat_inj: "showNat n = showNat m \<Longrightarrow> n = m"
  by (metis readNat_showNat)

lemma showNat_digits: "list_all isDigit (showNat n)"
proof (induction n rule: showNat.induct)
  case (1 n)
  show ?case
  proof (cases "n < 10")
    case True
    then show ?thesis
      by (simp add: showNat.simps [of n] isDigit_digit)
  next
    case False
    with "1" have "list_all isDigit (showNat (n div 10))" by simp
    with False show ?thesis
      by (simp add: showNat.simps [of n] isDigit_digit)
  qed
qed

lemma showNat_nonempty: "showNat n \<noteq> []"
  by (subst showNat.simps) simp

lemma digits_sep_unique:
  "list_all isDigit a \<Longrightarrow> list_all isDigit b \<Longrightarrow> \<not> isDigit c \<Longrightarrow>
     a @ c # x = b @ c # y \<Longrightarrow> a = b \<and> x = y"
proof (induction a arbitrary: b)
  case Nil
  then show ?case by (cases b) auto
next
  case (Cons d a)
  then show ?case by (cases b) auto
qed

lemma digits_end_unique:
  "list_all isDigit a \<Longrightarrow> list_all isDigit b \<Longrightarrow> \<not> isDigit c \<Longrightarrow>
     a @ c # x \<noteq> b"
proof (induction a arbitrary: b)
  case Nil
  then show ?case by (cases b) auto
next
  case (Cons d a)
  then show ?case by (cases b) auto
qed

lemma underscore_not_digit: "\<not> isDigit (CHR ''_'')"
  by (simp add: isDigit_def)

lemma nameKey_inj: "nameKey i j = nameKey i' j' \<longleftrightarrow> i = i' \<and> j = j'"
proof
  assume "nameKey i j = nameKey i' j'"
  then have "showNat i @ CHR ''_'' # showNat j = showNat i' @ CHR ''_'' # showNat j'"
    by (simp add: nameKey_def)
  from digits_sep_unique [OF showNat_digits showNat_digits underscore_not_digit this]
  show "i = i' \<and> j = j'" by (auto dest: showNat_inj)
qed simp

lemma valKeyIn_inj: "valKeyIn i j = valKeyIn i' j' \<longleftrightarrow> i = i' \<and> j = j'"
proof
  assume "valKeyIn i j = valKeyIn i' j'"
  then have "showNat i @ CHR ''_'' # showNat j = showNat i' @ CHR ''_'' # showNat j'"
    by (simp add: valKeyIn_def)
  from digits_sep_unique [OF showNat_digits showNat_digits underscore_not_digit this]
  show "i = i' \<and> j = j'" by (auto dest: showNat_inj)
qed simp

lemma valKey_inj: "valKey i = valKey i' \<longleftrightarrow> i = i'"
  by (auto simp: valKey_def dest: showNat_inj)

lemma valKeyLike_inj:
  "valKeyLike i k s = valKeyLike i' k' s' \<longleftrightarrow> i = i' \<and> k = k' \<and> s = s'"
proof
  assume "valKeyLike i k s = valKeyLike i' k' s'"
  then have a: "showNat i @ CHR ''_'' # (showNat k @ CHR ''_'' # s)
              = showNat i' @ CHR ''_'' # (showNat k' @ CHR ''_'' # s')"
    by (simp add: valKeyLike_def)
  from digits_sep_unique [OF showNat_digits showNat_digits underscore_not_digit a]
  have i: "showNat i = showNat i'" and b: "showNat k @ CHR ''_'' # s = showNat k' @ CHR ''_'' # s'"
    by simp_all
  from digits_sep_unique [OF showNat_digits showNat_digits underscore_not_digit b] i
  show "i = i' \<and> k = k' \<and> s = s'" by (auto dest: showNat_inj)
qed simp

lemma valKey_neq_valKeyIn: "valKey i \<noteq> valKeyIn i' j"
proof
  assume "valKey i = valKeyIn i' j"
  then have "showNat i' @ CHR ''_'' # showNat j = showNat i"
    by (simp add: valKey_def valKeyIn_def)
  with digits_end_unique [OF showNat_digits showNat_digits underscore_not_digit]
  show False by blast
qed

lemma valKey_neq_valKeyLike: "valKey i \<noteq> valKeyLike i' k s"
proof
  assume "valKey i = valKeyLike i' k s"
  then have "showNat i' @ CHR ''_'' # (showNat k @ CHR ''_'' # s) = showNat i"
    by (simp add: valKey_def valKeyLike_def)
  with digits_end_unique [OF showNat_digits showNat_digits underscore_not_digit]
  show False by blast
qed

lemma valKeyIn_valKeyLike: "valKeyIn i j = valKeyLike i' k s \<Longrightarrow> i = i'"
proof -
  assume "valKeyIn i j = valKeyLike i' k s"
  then have a: "showNat i @ CHR ''_'' # showNat j
              = showNat i' @ CHR ''_'' # (showNat k @ CHR ''_'' # s)"
    by (simp add: valKeyIn_def valKeyLike_def)
  from digits_sep_unique [OF showNat_digits showNat_digits underscore_not_digit a]
  show "i = i'" by (auto dest: showNat_inj)
qed

subsection \<open>Substring predicates\<close>

lemma lowerChar_idem: "lowerChar (lowerChar c) = lowerChar c"
  by (simp add: lowerChar_def)

lemma toLowerCase_idem: "toLowerCase (toLowerCase s) = toLowerCase s"
  by (simp add: toLowerCase_def lowerChar_idem)

lemma splitWhitespace_parts:
  "w \<in> set (splitWhitespace s) \<Longrightarrow> set w \<subseteq> set s \<and> \<not> list_ex isSpace w"
proof (induction s arbitrary: w rule: splitWhitespace.induct)
  case 1
  then show ?case by simp
next
  case (2 c cs)
  show ?case
  proof (cases "isSpace c")
    case True
    with "2.prems" have "w = [] \<or> w \<in> set (splitWhitespace (dropWhile isSpace cs))"
      by simp
    then show ?thesis
    proof
      assume "w = []"
      then show ?thesis by simp
    next
      assume "w \<in> set (splitWhitespace (dropWhile isSpace cs))"
      from "2.IH"(1) [OF True this] set_dropWhileD [of _ isSpace cs] show ?thesis
        by auto
    qed
  next
    case False
    show ?thesis
    proof (cases "splitWhitespace cs")
      case Nil
      with False "2.prems" show ?thesis by simp
    next
      case (Cons h t)
      with False "2.prems" have "w = c # h \<or> w \<in> set t" by simp
      then show ?thesis
      proof
        assume w: "w = c # h"
        from Cons have "h \<in> set (splitWhitespace cs)" by simp
        from "2.IH"(2) [OF False this] w False show ?thesis by auto
      next
        assume "w \<in> set t"
        with Cons have "w \<in> set (splitWhitespace cs)" by simp
        from "2.IH"(2) [OF False this] show ?thesis by auto
      qed
    qed
  qed
qed

lemma searchTerms_term:
  assumes "t \<in> set (searchTerms v)"
  shows "t \<noteq> [] \<and> \<not> list_ex isSpace t \<and> toLowerCase t = t"
proof -
  from assms have ne: "t \<noteq> []"
    and w: "t \<in> set (splitWhitespace (toLowerCase (toString v)))"
    by (auto simp: searchTerms_def)
  from splitWhitespace_parts [OF w]
  have s: "set t \<subseteq> set (toLowerCase (toString v))" and n: "\<not> list_ex isSpace t" by simp_all
  have "lowerChar c = c" if "c \<in> set t" for c
  proof -
    from that s obtain d where "c = lowerChar d"
      by (auto simp: toLowerCase_def)
    then show ?thesis by (simp add: lowerChar_idem)
  qed
  then have "toLowerCase t = t"
    by (simp add: toLowerCase_def map_idI)
  with ne n show ?thesis by simp
qed

lemma containsExpressions_spec:
  assumes "ExpressionAttributeValues e = Some vs"
  shows "\<exists>vs'. containsExpressions e path i isNot k ts
            = Inr (e\<lparr>ExpressionAttributeValues := Some vs'\<rparr>,
                   map (\<lambda>j. if isNot then ''NOT ('' @ containsExpr path i j @ '')''
                             else containsExpr path i j) [k..<k + length ts])
          \<and> (\<forall>j<length ts.
                vs' (valKeyLike i (k + j) ''l'') = Some (AttrS (toLowerCase (ts ! j)))
              \<and> vs' (valKeyLike i (k + j) ''u'') = Some (AttrS (toUpperCase (ts ! j)))
              \<and> vs' (valKeyLike i (k + j) ''o'') = Some (AttrS (ts ! j)))
          \<and> dom vs' = dom vs \<union> (\<Union>j<length ts. {valKeyLike i (k + j) ''l'',
                                     valKeyLike i (k + j) ''u'', valKeyLike i (k + j) ''o''})
          \<and> (\<forall>key. (\<forall>j s. key \<noteq> valKeyLike i (k + j) s) \<longrightarrow> vs' key = vs key)"
  using assms
proof (induction ts arbitrary: e vs k)
  case Nil
  then have "e = e\<lparr>ExpressionAttributeValues := Some vs\<rparr>" by simp
  then show ?case by (intro exI [of _ vs]) simp
next
  case (Cons t ts)
  let ?l = "valKeyLike i k ''l''" and ?u = "valKeyLike i k ''u''" and ?o = "valKeyLike i k ''o''"
  let ?vs3 = "vs(?l \<mapsto> AttrS (toLowerCase t), ?u \<mapsto> AttrS (toUpperCase t), ?o \<mapsto> AttrS t)"
  let ?e3 = "e\<lparr>ExpressionAttributeValues := Some ?vs3\<rparr>"
  have e3: "ExpressionAttributeValues ?e3 = Some ?vs3" by simp
  from Cons.IH [OF e3, of "Suc k"] obtain vs'
    where r: "containsExpressions ?e3 path i isNot (Suc k) ts
            = Inr (?e3\<lparr>ExpressionAttributeValues := Some vs'\<rparr>,
                   map (\<lambda>j. if isNot then ''NOT ('' @ containsExpr path i j @ '')''
                             else containsExpr path i j) [Suc k..<Suc k + length ts])"
      and v: "\<forall>j<length ts.
                vs' (valKeyLike i (Suc k + j) ''l'') = Some (AttrS (toLowerCase (ts ! j)))
              \<and> vs' (valKeyLike i (Suc k + j) ''u'') = Some (AttrS (toUpperCase (ts ! j)))
              \<and> vs' (valKeyLike i (Suc k + j) ''o'') = Some (AttrS (ts ! j))"
      and d: "dom vs' = dom ?vs3 \<union> (\<Union>j<length ts. {valKeyLike i (Suc k + j) ''l'',
                                     valKeyLike i (Suc k + j) ''u'', valKeyLike i (Suc k + j) ''o''})"
      and u: "\<forall>key. (\<forall>j s. key \<noteq> valKeyLike i (Suc k + j) s) \<longrightarrow> vs' key = ?vs3 key"
    by blast
  have run: "containsExpressions e path i isNot k (t # ts)
            = Inr (e\<lparr>ExpressionAttributeValues := Some vs'\<rparr>,
                   map (\<lambda>j. if isNot then ''NOT ('' @ containsExpr path i j @ '')''
                             else containsExpr path i j) [k..<k + length (t # ts)])"
  proof -
    have up: "[k..<Suc (k + length ts)] = k # [Suc k..<Suc (k + length ts)]"
      by (subst upt_rec) simp
    from Cons.prems r show ?thesis
      by (simp add: setValue_def bindE_def up del: upt_Suc)
  qed
  have head: "vs' (valKeyLike i k s) = ?vs3 (valKeyLike i k s)" for s
    using u by (simp add: valKeyLike_inj)
  have vals: "vs' (valKeyLike i (k + j) ''l'') = Some (AttrS (toLowerCase ((t # ts) ! j)))
              \<and> vs' (valKeyLike i (k + j) ''u'') = Some (AttrS (toUpperCase ((t # ts) ! j)))
              \<and> vs' (valKeyLike i (k + j) ''o'') = Some (AttrS ((t # ts) ! j))"
    if "j < length (t # ts)" for j
  proof (cases j)
    case 0
    then show ?thesis by (simp add: head valKeyLike_inj)
  next
    case (Suc j')
    with that v show ?thesis by simp
  qed
  have "(\<Union>j<length (t # ts). {valKeyLike i (k + j) ''l'', valKeyLike i (k + j) ''u'',
            valKeyLike i (k + j) ''o''})
        = {?l, ?u, ?o} \<union> (\<Union>j<length ts. {valKeyLike i (Suc k + j) ''l'',
            valKeyLike i (Suc k + j) ''u'', valKeyLike i (Suc k + j) ''o''})"
    by (auto simp: lessThan_Suc_eq_insert_0 image_iff)
  then have dm: "dom vs' = dom vs \<union> (\<Union>j<length (t # ts). {valKeyLike i (k + j) ''l'',
            valKeyLike i (k + j) ''u'', valKeyLike i (k + j) ''o''})"
    using d by auto
  have un: "vs' key = vs key" if "\<forall>j s. key \<noteq> valKeyLike i (k + j) s" for key
  proof -
    from that have "\<forall>j s. key \<noteq> valKeyLike i (Suc k + j) s"
      by (metis add_Suc_shift)
    with u have "vs' key = ?vs3 key" by blast
    moreover from that [rule_format, of 0] have "key \<noteq> ?l" "key \<noteq> ?u" "key \<noteq> ?o"
      by simp_all
    ultimately show ?thesis by simp
  qed
  from run vals dm un show ?case by blast
qed

text \<open>
  What \<^verbatim>\<open>buildLikeExpression\<close> builds, for every value. The search terms are the
  non-empty pieces between white space of the lower-cased string of the value. With no
  term the expression is the existence test (\<^verbatim>\<open>attribute_exists\<close> for \<^verbatim>\<open>not like\<close>,
  \<^verbatim>\<open>attribute_not_exists\<close> for \<^verbatim>\<open>like\<close>) and nothing is stored. Otherwise term \<open>k\<close> adds
  exactly the three value placeholders \<^verbatim>\<open>:val{i}_{k}_l\<close>, \<^verbatim>\<open>_u\<close> and \<^verbatim>\<open>_o\<close>, holding the
  lower-cased term, the upper-cased term and the term as it stands, and its clause is the
  three \<^verbatim>\<open>contains\<close> tests with OR between them; \<^verbatim>\<open>like\<close> puts AND between the clauses
  and parentheses around the whole, \<^verbatim>\<open>not like\<close> negates each clause in parentheses and
  puts AND between the negations. The terms are cut from the lower-cased string, so a
  term as it stands is already in lower case.
\<close>

lemma buildLikeExpression_terms:
  assumes "ExpressionAttributeValues e = Some vs"
  shows "searchTerms v = filter (\<lambda>t. length t > 0) (splitWhitespace (toLowerCase (toString v)))
    \<and> (\<forall>t \<in> set (searchTerms v). t \<noteq> [] \<and> \<not> list_ex isSpace t \<and> toLowerCase t = t)
    \<and> (searchTerms v = [] \<longrightarrow>
         buildLikeExpression e path v i isNot
           = Inr (e, if isNot then ''attribute_exists('' @ path @ '')''
                     else ''attribute_not_exists('' @ path @ '')''))
    \<and> (searchTerms v \<noteq> [] \<longrightarrow>
         (\<exists>vs'. buildLikeExpression e path v i isNot
                  = Inr (e\<lparr>ExpressionAttributeValues := Some vs'\<rparr>,
                         if isNot
                           then join '' AND ''
                                  (map (\<lambda>k. ''NOT ('' @ containsExpr path i k @ '')'')
                                     [0..<length (searchTerms v)])
                         else ''('' @ join '' AND ''
                                  (map (containsExpr path i) [0..<length (searchTerms v)])
                               @ '')'')
            \<and> (\<forall>k<length (searchTerms v).
                  vs' (valKeyLike i k ''l'')
                    = Some (toDynamoDBValue (JStr (toLowerCase (searchTerms v ! k))))
                \<and> vs' (valKeyLike i k ''u'')
                    = Some (toDynamoDBValue (JStr (toUpperCase (searchTerms v ! k))))
                \<and> vs' (valKeyLike i k ''o'')
                    = Some (toDynamoDBValue (JStr (searchTerms v ! k))))
            \<and> dom vs' = dom vs \<union> (\<Union>k<length (searchTerms v).
                  {valKeyLike i k ''l'', valKeyLike i k ''u'', valKeyLike i k ''o''})))
    \<and> card {valKeyLike i k ''l'', valKeyLike i k ''u'', valKeyLike i k ''o''} = 3
    \<and> containsExpr path i k
         = ''contains('' @ path @ '', '' @ valKeyLike i k ''l'' @ '') OR contains(''
             @ path @ '', '' @ valKeyLike i k ''u'' @ '') OR contains(''
             @ path @ '', '' @ valKeyLike i k ''o'' @ '')''"
proof (intro conjI impI ballI)
  show "searchTerms v = filter (\<lambda>t. length t > 0) (splitWhitespace (toLowerCase (toString v)))"
    by (simp add: searchTerms_def)
next
  fix t assume "t \<in> set (searchTerms v)"
  from searchTerms_term [OF this]
  show "t \<noteq> []" "\<not> list_ex isSpace t" "toLowerCase t = t" by simp_all
next
  assume "searchTerms v = []"
  then show "buildLikeExpression e path v i isNot
           = Inr (e, if isNot then ''attribute_exists('' @ path @ '')''
                     else ''attribute_not_exists('' @ path @ '')'')"
    by (simp add: buildLikeExpression_def)
next
  assume ne: "searchTerms v \<noteq> []"
  from containsExpressions_spec [OF assms, of path i isNot 0 "searchTerms v"] obtain vs'
    where r: "containsExpressions e path i isNot 0 (searchTerms v)
            = Inr (e\<lparr>ExpressionAttributeValues := Some vs'\<rparr>,
                   map (\<lambda>j. if isNot then ''NOT ('' @ containsExpr path i j @ '')''
                             else containsExpr path i j) [0..<0 + length (searchTerms v)])"
      and v: "\<forall>j<length (searchTerms v).
                vs' (valKeyLike i (0 + j) ''l'') = Some (AttrS (toLowerCase (searchTerms v ! j)))
              \<and> vs' (valKeyLike i (0 + j) ''u'') = Some (AttrS (toUpperCase (searchTerms v ! j)))
              \<and> vs' (valKeyLike i (0 + j) ''o'') = Some (AttrS (searchTerms v ! j))"
      and d: "dom vs' = dom vs \<union> (\<Union>j<length (searchTerms v). {valKeyLike i (0 + j) ''l'',
                                     valKeyLike i (0 + j) ''u'', valKeyLike i (0 + j) ''o''})"
    by blast
  have "buildLikeExpression e path v i isNot
                  = Inr (e\<lparr>ExpressionAttributeValues := Some vs'\<rparr>,
                         if isNot
                           then join '' AND ''
                                  (map (\<lambda>k. ''NOT ('' @ containsExpr path i k @ '')'')
                                     [0..<length (searchTerms v)])
                         else ''('' @ join '' AND ''
                                  (map (containsExpr path i) [0..<length (searchTerms v)])
                               @ '')'')"
    using ne r by (cases isNot) (simp_all add: buildLikeExpression_def bindE_def)
  with v d
  show "\<exists>vs'. buildLikeExpression e path v i isNot
                  = Inr (e\<lparr>ExpressionAttributeValues := Some vs'\<rparr>,
                         if isNot
                           then join '' AND ''
                                  (map (\<lambda>k. ''NOT ('' @ containsExpr path i k @ '')'')
                                     [0..<length (searchTerms v)])
                         else ''('' @ join '' AND ''
                                  (map (containsExpr path i) [0..<length (searchTerms v)])
                               @ '')'')
            \<and> (\<forall>k<length (searchTerms v).
                  vs' (valKeyLike i k ''l'')
                    = Some (toDynamoDBValue (JStr (toLowerCase (searchTerms v ! k))))
                \<and> vs' (valKeyLike i k ''u'')
                    = Some (toDynamoDBValue (JStr (toUpperCase (searchTerms v ! k))))
                \<and> vs' (valKeyLike i k ''o'')
                    = Some (toDynamoDBValue (JStr (searchTerms v ! k))))
            \<and> dom vs' = dom vs \<union> (\<Union>k<length (searchTerms v).
                  {valKeyLike i k ''l'', valKeyLike i k ''u'', valKeyLike i k ''o''})"
    by (intro exI [of _ vs']) simp
next
  show "card {valKeyLike i k ''l'', valKeyLike i k ''u'', valKeyLike i k ''o''} = 3"
    by (simp add: valKeyLike_inj)
next
  show "containsExpr path i k
         = ''contains('' @ path @ '', '' @ valKeyLike i k ''l'' @ '') OR contains(''
             @ path @ '', '' @ valKeyLike i k ''u'' @ '') OR contains(''
             @ path @ '', '' @ valKeyLike i k ''o'' @ '')''"
    by (simp add: containsExpr_def)
qed

lemma searchTerms_Hello_World:
  "searchTerms (JStr ''Hello  World'') = [''hello'', ''world'']"
  by (simp add: searchTerms_def toLowerCase_def lowerChar_def isSpace_def)

text \<open>
  Claim C4. The claim has the third placeholder of a term hold its original-case form and
  the clauses of the terms joined by AND. On the code, for the value \<^verbatim>\<open>Hello  World\<close>,
  the placeholders \<^verbatim>\<open>:val0_0_o\<close> and \<^verbatim>\<open>:val0_1_o\<close> hold \<^verbatim>\<open>hello\<close> and \<^verbatim>\<open>world\<close>, the
  same as the lower-case ones, since the terms are cut from the lower-cased string; and
  the two clauses stand side by side with no parentheses of their own, so that the AND
  between them binds only the two \<^verbatim>\<open>contains\<close> tests next to it.
\<close>

theorem buildLikeExpression_original_case:
  "\<exists>vs'. buildLikeExpression
            \<lparr>KeyConditionExpression = None, FilterExpression = None,
             ExpressionAttributeNames = Some Map.empty,
             ExpressionAttributeValues = Some Map.empty\<rparr>
            ''#key0_0'' (JStr ''Hello  World'') 0 False
          = Inr (\<lparr>KeyConditionExpression = None, FilterExpression = None,
                  ExpressionAttributeNames = Some Map.empty,
                  ExpressionAttributeValues = Some vs'\<rparr>,
                 ''(contains(#key0_0, :val0_0_l) OR contains(#key0_0, :val0_0_u) OR contains(#key0_0, :val0_0_o) AND contains(#key0_0, :val0_1_l) OR contains(#key0_0, :val0_1_u) OR contains(#key0_0, :val0_1_o))'')
        \<and> vs' '':val0_0_l'' = Some (AttrS ''hello'')
        \<and> vs' '':val0_0_u'' = Some (AttrS ''HELLO'')
        \<and> vs' '':val0_0_o'' = Some (AttrS ''hello'')
        \<and> vs' '':val0_1_l'' = Some (AttrS ''world'')
        \<and> vs' '':val0_1_u'' = Some (AttrS ''WORLD'')
        \<and> vs' '':val0_1_o'' = Some (AttrS ''world'')
        \<and> dom vs' = {'':val0_0_l'', '':val0_0_u'', '':val0_0_o'',
                      '':val0_1_l'', '':val0_1_u'', '':val0_1_o''}"
proof -
  let ?e = "\<lparr>KeyConditionExpression = None, FilterExpression = None,
             ExpressionAttributeNames = Some Map.empty,
             ExpressionAttributeValues = Some (Map.empty :: string \<rightharpoonup> attr)\<rparr>"
  have e: "ExpressionAttributeValues ?e = Some Map.empty" by simp
  have k: "valKeyLike 0 0 s = '':val0_0_'' @ s" "valKeyLike 0 (Suc 0) s = '':val0_1_'' @ s" for s
    by (simp_all add: valKeyLike_def showNat.simps)
  have l2: "{..<2::nat} = {0, Suc 0}" by auto
  note t = buildLikeExpression_terms [OF e, where v = "JStr ''Hello  World''"
      and path = "''#key0_0''" and i = 0 and isNot = False and k = 0]
  note t4 = t [THEN conjunct2, THEN conjunct2, THEN conjunct2, THEN conjunct1]
  from t4 have "\<exists>vs'. buildLikeExpression ?e ''#key0_0'' (JStr ''Hello  World'') 0 False
          = Inr (?e\<lparr>ExpressionAttributeValues := Some vs'\<rparr>,
                 ''('' @ join '' AND '' (map (containsExpr ''#key0_0'' 0) [0..<2]) @ '')'')
    \<and> (\<forall>k<2. vs' (valKeyLike 0 k ''l'')
                    = Some (toDynamoDBValue (JStr (toLowerCase ([''hello'', ''world''] ! k))))
                \<and> vs' (valKeyLike 0 k ''u'')
                    = Some (toDynamoDBValue (JStr (toUpperCase ([''hello'', ''world''] ! k))))
                \<and> vs' (valKeyLike 0 k ''o'')
                    = Some (toDynamoDBValue (JStr ([''hello'', ''world''] ! k))))
    \<and> dom vs' = dom (Map.empty :: string \<rightharpoonup> attr) \<union> (\<Union>k<2.
                  {valKeyLike 0 k ''l'', valKeyLike 0 k ''u'', valKeyLike 0 k ''o''})"
    by (simp add: searchTerms_Hello_World numeral_2_eq_2 del: upt_Suc)
  then obtain vs' where
    r: "buildLikeExpression ?e ''#key0_0'' (JStr ''Hello  World'') 0 False
          = Inr (?e\<lparr>ExpressionAttributeValues := Some vs'\<rparr>,
                 ''('' @ join '' AND '' (map (containsExpr ''#key0_0'' 0) [0..<2]) @ '')'')"
    and v: "\<forall>k<2. vs' (valKeyLike 0 k ''l'')
                    = Some (toDynamoDBValue (JStr (toLowerCase ([''hello'', ''world''] ! k))))
                \<and> vs' (valKeyLike 0 k ''u'')
                    = Some (toDynamoDBValue (JStr (toUpperCase ([''hello'', ''world''] ! k))))
                \<and> vs' (valKeyLike 0 k ''o'')
                    = Some (toDynamoDBValue (JStr ([''hello'', ''world''] ! k)))"
    and d: "dom vs' = dom (Map.empty :: string \<rightharpoonup> attr) \<union> (\<Union>k<2.
                  {valKeyLike 0 k ''l'', valKeyLike 0 k ''u'', valKeyLike 0 k ''o''})"
    by blast
  have up: "[0..<2] = [0, Suc 0]" by (simp add: upt_conv_Cons)
  from r have r': "buildLikeExpression ?e ''#key0_0'' (JStr ''Hello  World'') 0 False
          = Inr (\<lparr>KeyConditionExpression = None, FilterExpression = None,
                  ExpressionAttributeNames = Some Map.empty,
                  ExpressionAttributeValues = Some vs'\<rparr>,
                 ''(contains(#key0_0, :val0_0_l) OR contains(#key0_0, :val0_0_u) OR contains(#key0_0, :val0_0_o) AND contains(#key0_0, :val0_1_l) OR contains(#key0_0, :val0_1_u) OR contains(#key0_0, :val0_1_o))'')"
    by (simp add: up containsExpr_def k)
  from v [rule_format, of 0] v [rule_format, of "Suc 0"]
  have v': "vs' '':val0_0_l'' = Some (AttrS ''hello'')" "vs' '':val0_0_u'' = Some (AttrS ''HELLO'')"
    "vs' '':val0_0_o'' = Some (AttrS ''hello'')" "vs' '':val0_1_l'' = Some (AttrS ''world'')"
    "vs' '':val0_1_u'' = Some (AttrS ''WORLD'')" "vs' '':val0_1_o'' = Some (AttrS ''world'')"
    by (simp_all add: k toLowerCase_def toUpperCase_def lowerChar_def upperChar_def)
  from d have d': "dom vs' = {'':val0_0_l'', '':val0_0_u'', '':val0_0_o'',
                      '':val0_1_l'', '':val0_1_u'', '':val0_1_o''}"
    by (auto simp: l2 k)
  from r' v' d' show ?thesis by blast
qed

subsection \<open>Client-side sort\<close>

subsection \<open>The placeholders an expression refers to\<close>

declare placeholders.simps [simp del]

lemma placeholders_Nil [simp]: "placeholders m [] = []"
  by (simp add: placeholders.simps)

lemma placeholders_skip_char: "c \<noteq> m \<Longrightarrow> placeholders m (c # cs) = placeholders m cs"
  by (simp add: placeholders.simps)

lemma placeholders_none: "m \<notin> set s \<Longrightarrow> placeholders m s = []"
  by (induction s) (auto simp: placeholders_skip_char)

lemma placeholders_skip: "m \<notin> set p \<Longrightarrow> placeholders m (p @ r) = placeholders m r"
  by (induction p) (auto simp: placeholders_skip_char)

lemma placeholders_token:
  "list_all isIdentChar w \<Longrightarrow> placeholders m (m # w) = [m # w]"
proof -
  assume "list_all isIdentChar w"
  then have t: "takeWhile isIdentChar w = w" "dropWhile isIdentChar w = []"
    by (simp_all add: list_all_iff)
  show ?thesis
    by (simp add: placeholders.simps t)
qed

lemma placeholders_append:
  "b = [] \<or> \<not> isIdentChar (hd b) \<Longrightarrow>
     placeholders m (a @ b) = placeholders m a @ placeholders m b"
proof (induction m a rule: placeholders.induct)
  case (1 m)
  then show ?case by simp
next
  case (2 m c cs)
  show ?case
  proof (cases "c = m")
    case False
    with 2 show ?thesis by (simp add: placeholders_skip_char)
  next
    case True
    show ?thesis
    proof (cases "list_all isIdentChar cs")
      case all: True
      then have t: "takeWhile isIdentChar cs = cs" "dropWhile isIdentChar cs = []"
        by (simp_all add: list_all_iff)
      from "2.prems" have tb: "takeWhile isIdentChar b = []" "dropWhile isIdentChar b = b"
        by (cases b; simp)+
      from all have ta: "takeWhile isIdentChar (cs @ b) = cs @ takeWhile isIdentChar b"
        "dropWhile isIdentChar (cs @ b) = dropWhile isIdentChar b"
        by (simp_all add: list_all_iff)
      have "placeholders m (m # cs @ b) = (m # cs) # placeholders m b"
        by (subst placeholders.simps) (simp add: ta tb)
      moreover have "placeholders m (m # cs) = [m # cs]"
        by (subst placeholders.simps) (simp add: t)
      ultimately show ?thesis using True by simp
    next
      case False
      then obtain x where x: "x \<in> set cs" "\<not> isIdentChar x"
        by (auto simp: list_all_iff)
      then have ta: "takeWhile isIdentChar (cs @ b) = takeWhile isIdentChar cs"
        "dropWhile isIdentChar (cs @ b) = dropWhile isIdentChar cs @ b"
        by (simp_all add: takeWhile_append1 dropWhile_append1)
      have "placeholders m (m # cs @ b)
          = (m # takeWhile isIdentChar cs) # placeholders m (dropWhile isIdentChar cs @ b)"
        by (subst placeholders.simps) (simp add: ta)
      moreover have "placeholders m (m # cs)
          = (m # takeWhile isIdentChar cs) # placeholders m (dropWhile isIdentChar cs)"
        by (subst placeholders.simps) simp
      ultimately show ?thesis using True "2.IH"(1) [OF True "2.prems"] by simp
    qed
  qed
qed

lemma placeholders_sep:
  "\<not> isIdentChar c \<Longrightarrow>
     placeholders m (a @ c # b) = placeholders m a @ placeholders m (c # b)"
  by (rule placeholders_append) simp

lemma placeholders_join:
  "m \<notin> set sep \<Longrightarrow> sep \<noteq> [] \<Longrightarrow> \<not> isIdentChar (hd sep) \<Longrightarrow>
     placeholders m (join sep xs) = concat (map (placeholders m) xs)"
proof (induction sep xs rule: join.induct)
  case (1 sep)
  then show ?case by simp
next
  case (2 sep x)
  then show ?case by simp
next
  case (3 sep x y ys)
  from "3.prems" have "placeholders m (x @ sep @ join sep (y # ys))
      = placeholders m x @ placeholders m (sep @ join sep (y # ys))"
    by (intro placeholders_append) (cases sep; simp)
  with 3 show ?case
    by (simp add: placeholders_skip)
qed

lemma isDigit_isIdentChar: "isDigit c \<Longrightarrow> isIdentChar c"
  by (simp add: isIdentChar_def)

lemma showNat_ident: "list_all isIdentChar (showNat n)"
  using showNat_digits [of n] by (simp add: list_all_iff isDigit_isIdentChar)

lemma marker_not_ident: "\<not> isIdentChar (CHR ''#'')" "\<not> isIdentChar (CHR '':'')"
  by (simp_all add: isIdentChar_def isLower_def isUpper_def isDigit_def)

lemma sep_not_ident:
  "\<not> isIdentChar (CHR '' '')" "\<not> isIdentChar (CHR ''.'')" "\<not> isIdentChar (CHR '','')"
  "\<not> isIdentChar (CHR '')'')" "\<not> isIdentChar (CHR ''('')"
  by (simp_all add: isIdentChar_def isLower_def isUpper_def isDigit_def)

lemma ident_not_marker: "list_all isIdentChar w \<Longrightarrow> CHR ''#'' \<notin> set w \<and> CHR '':'' \<notin> set w"
  using marker_not_ident by (auto simp: list_all_iff)

lemma nameKey_shape: "\<exists>w. nameKey i j = CHR ''#'' # w \<and> list_all isIdentChar w"
  by (simp add: nameKey_def showNat_ident isIdentChar_def isLower_def)

lemma valKey_shape: "\<exists>w. valKey i = CHR '':'' # w \<and> list_all isIdentChar w"
  by (simp add: valKey_def showNat_ident isIdentChar_def isLower_def)

lemma valKeyIn_shape: "\<exists>w. valKeyIn i j = CHR '':'' # w \<and> list_all isIdentChar w"
  by (simp add: valKeyIn_def showNat_ident isIdentChar_def isLower_def)

lemma valKeyLike_shape:
  "list_all isIdentChar s \<Longrightarrow> \<exists>w. valKeyLike i k s = CHR '':'' # w \<and> list_all isIdentChar w"
  by (simp add: valKeyLike_def showNat_ident isIdentChar_def isLower_def)

lemma placeholders_name_token:
  "t = CHR ''#'' # w \<Longrightarrow> list_all isIdentChar w \<Longrightarrow>
     placeholders (CHR ''#'') t = [t] \<and> placeholders (CHR '':'') t = []"
  using ident_not_marker [of w]
  by (simp add: placeholders_token placeholders_none)

lemma placeholders_value_token:
  "t = CHR '':'' # w \<Longrightarrow> list_all isIdentChar w \<Longrightarrow>
     placeholders (CHR '':'') t = [t] \<and> placeholders (CHR ''#'') t = []"
  using ident_not_marker [of w]
  by (simp add: placeholders_token placeholders_none)

lemma placeholders_nameKey:
  "placeholders (CHR ''#'') (nameKey i j) = [nameKey i j]"
  "placeholders (CHR '':'') (nameKey i j) = []"
  using nameKey_shape [of i j] placeholders_name_token by blast+

lemma placeholders_valKey:
  "placeholders (CHR '':'') (valKey i) = [valKey i]"
  "placeholders (CHR ''#'') (valKey i) = []"
  using valKey_shape [of i] placeholders_value_token by blast+

lemma placeholders_valKeyIn:
  "placeholders (CHR '':'') (valKeyIn i j) = [valKeyIn i j]"
  "placeholders (CHR ''#'') (valKeyIn i j) = []"
  using valKeyIn_shape [of i j] placeholders_value_token by blast+

lemma placeholders_valKeyLike:
  "s \<in> {''l'', ''u'', ''o''} \<Longrightarrow>
     placeholders (CHR '':'') (valKeyLike i k s) = [valKeyLike i k s]"
  "s \<in> {''l'', ''u'', ''o''} \<Longrightarrow> placeholders (CHR ''#'') (valKeyLike i k s) = []"
proof -
  assume "s \<in> {''l'', ''u'', ''o''}"
  then have "list_all isIdentChar s"
    by (auto simp: isIdentChar_def isLower_def)
  from valKeyLike_shape [OF this, of i k] placeholders_value_token
  show "placeholders (CHR '':'') (valKeyLike i k s) = [valKeyLike i k s]"
    "placeholders (CHR ''#'') (valKeyLike i k s) = []" by blast+
qed

lemma placeholders_pathOf:
  "placeholders (CHR ''#'') (pathOf i parts) = map (nameKey i) [0..<length parts]"
  "placeholders (CHR '':'') (pathOf i parts) = []"
proof -
  have j: "placeholders m (pathOf i parts)
      = concat (map (placeholders m) (map (nameKey i) [0..<length parts]))"
    if "m \<noteq> CHR ''.''" for m
    unfolding pathOf_def using that
    by (intro placeholders_join) (simp_all add: sep_not_ident)
  have "concat (map (placeholders (CHR ''#'')) (map (nameKey i) ks)) = map (nameKey i) ks" for ks
    by (induction ks) (simp_all add: placeholders_nameKey)
  with j [of "CHR ''#''"]
  show "placeholders (CHR ''#'') (pathOf i parts) = map (nameKey i) [0..<length parts]"
    by simp
  from j [of "CHR '':''"] show "placeholders (CHR '':'') (pathOf i parts) = []"
    by (simp add: placeholders_nameKey)
qed

lemma lookupOperator_no_marker:
  "lookupOperator op = Some dynOp \<Longrightarrow> CHR ''#'' \<notin> set dynOp \<and> CHR '':'' \<notin> set dynOp"
proof (cases "map_of operatorMap op")
  case None
  assume "lookupOperator op = Some dynOp"
  with None have m: "op \<in> set objectPrototypeMembers" and d: "dynOp = inheritedText op"
    by (auto simp: lookupOperator_def split: if_splits)
  from m have "CHR ''#'' \<notin> set op \<and> CHR '':'' \<notin> set op"
    by (auto simp: objectPrototypeMembers_def)
  with d show ?thesis
    by (simp add: inheritedText_def)
next
  case (Some x)
  assume "lookupOperator op = Some dynOp"
  with Some have "map_of operatorMap op = Some dynOp"
    by (simp add: lookupOperator_def)
  then have "(op, dynOp) \<in> set operatorMap"
    by (rule map_of_SomeD)
  then show ?thesis
    by (auto simp: operatorMap_def)
qed

lemma placeholders_basic:
  assumes "lookupOperator op = Some dynOp"
  shows "placeholders (CHR ''#'') (pathOf i parts @ '' '' @ dynOp @ '' '' @ valKey i)
           = map (nameKey i) [0..<length parts]"
    and "placeholders (CHR '':'') (pathOf i parts @ '' '' @ dynOp @ '' '' @ valKey i)
           = [valKey i]"
  using lookupOperator_no_marker [OF assms]
  by (simp_all add: placeholders_sep sep_not_ident placeholders_skip_char placeholders_pathOf
        placeholders_none placeholders_valKey)

lemma placeholders_parens:
  "m = CHR ''#'' \<or> m = CHR '':'' \<Longrightarrow>
     placeholders m (''('' @ x @ '')'') = placeholders m x"
proof -
  assume m: "m = CHR ''#'' \<or> m = CHR '':''"
  have "placeholders m (x @ '')'') = placeholders m x @ placeholders m '')''"
    by (rule placeholders_append) (simp add: sep_not_ident)
  with m show ?thesis
    by (auto simp: placeholders_skip_char)
qed

lemma placeholders_NOT:
  "m = CHR ''#'' \<or> m = CHR '':'' \<Longrightarrow> placeholders m (''NOT '' @ x) = placeholders m x"
  by (auto simp: placeholders_skip_char)

lemma placeholders_AND_join:
  "m = CHR ''#'' \<or> m = CHR '':'' \<Longrightarrow>
     placeholders m (join '' AND '' xs) = concat (map (placeholders m) xs)"
  by (rule placeholders_join) (auto simp: sep_not_ident)

lemma placeholders_OR_join:
  "m = CHR ''#'' \<or> m = CHR '':'' \<Longrightarrow>
     placeholders m (join '' OR '' xs) = concat (map (placeholders m) xs)"
  by (rule placeholders_join) (auto simp: sep_not_ident)

lemma placeholders_equalityCheck:
  "placeholders (CHR ''#'') (pathOf i parts @ '' = '' @ valKeyIn i j)
     = map (nameKey i) [0..<length parts]"
  "placeholders (CHR '':'') (pathOf i parts @ '' = '' @ valKeyIn i j) = [valKeyIn i j]"
  by (simp_all add: placeholders_sep sep_not_ident placeholders_skip_char placeholders_pathOf
        placeholders_valKeyIn)

lemma placeholders_containsExpr:
  "placeholders (CHR ''#'') (containsExpr (pathOf i parts) i k)
     = map (nameKey i) [0..<length parts] @ map (nameKey i) [0..<length parts]
         @ map (nameKey i) [0..<length parts]"
  "placeholders (CHR '':'') (containsExpr (pathOf i parts) i k)
     = [valKeyLike i k ''l'', valKeyLike i k ''u'', valKeyLike i k ''o'']"
  by (simp_all add: containsExpr_def placeholders_sep sep_not_ident placeholders_skip_char
        placeholders_pathOf placeholders_valKeyLike)

lemma placeholders_exists:
  "placeholders (CHR ''#'') (''attribute_exists('' @ pathOf i parts @ '')'')
     = map (nameKey i) [0..<length parts]"
  "placeholders (CHR '':'') (''attribute_exists('' @ pathOf i parts @ '')'') = []"
  "placeholders (CHR ''#'') (''attribute_not_exists('' @ pathOf i parts @ '')'')
     = map (nameKey i) [0..<length parts]"
  "placeholders (CHR '':'') (''attribute_not_exists('' @ pathOf i parts @ '')'') = []"
  by (simp_all add: placeholders_sep sep_not_ident placeholders_skip_char placeholders_pathOf)

lemma setPathNames_spec:
  "ExpressionAttributeNames e = Some ns \<Longrightarrow>
     \<exists>ns'. setPathNames e i k parts = Inr (e\<lparr>ExpressionAttributeNames := Some ns'\<rparr>)
       \<and> dom ns' = dom ns \<union> nameKey i ` {k..<k + length parts}"
proof (induction parts arbitrary: e ns k)
  case Nil
  then have "e = e\<lparr>ExpressionAttributeNames := Some ns\<rparr>" by simp
  then show ?case by (intro exI [of _ ns]) simp
next
  case (Cons p ps)
  let ?e1 = "e\<lparr>ExpressionAttributeNames := Some (ns(nameKey i k \<mapsto> p))\<rparr>"
  have "ExpressionAttributeNames ?e1 = Some (ns(nameKey i k \<mapsto> p))" by simp
  from Cons.IH [OF this, of "Suc k"] obtain ns'
    where r: "setPathNames ?e1 i (Suc k) ps = Inr (?e1\<lparr>ExpressionAttributeNames := Some ns'\<rparr>)"
      and d: "dom ns' = dom (ns(nameKey i k \<mapsto> p)) \<union> nameKey i ` {Suc k..<Suc k + length ps}"
    by blast
  have "{k..<k + length (p # ps)} = insert k {Suc k..<Suc k + length ps}"
    by auto
  with d have "dom ns' = dom ns \<union> nameKey i ` {k..<k + length (p # ps)}"
    by auto
  moreover from Cons.prems r
  have "setPathNames e i k (p # ps) = Inr (e\<lparr>ExpressionAttributeNames := Some ns'\<rparr>)"
    by (simp add: setName_def bindE_def)
  ultimately show ?case by blast
qed

lemma inChecks_spec:
  "ExpressionAttributeValues e = Some vs \<Longrightarrow>
     \<exists>vs'. inChecks e path i k vals
              = Inr (e\<lparr>ExpressionAttributeValues := Some vs'\<rparr>,
                     map (\<lambda>j. path @ '' = '' @ valKeyIn i j) [k..<k + length vals])
       \<and> dom vs' = dom vs \<union> valKeyIn i ` {k..<k + length vals}"
proof (induction vals arbitrary: e vs k)
  case Nil
  then have "e = e\<lparr>ExpressionAttributeValues := Some vs\<rparr>" by simp
  then show ?case by (intro exI [of _ vs]) simp
next
  case (Cons v vals)
  let ?vs1 = "vs(valKeyIn i k \<mapsto> toDynamoDBValue v)"
  let ?e1 = "e\<lparr>ExpressionAttributeValues := Some ?vs1\<rparr>"
  have "ExpressionAttributeValues ?e1 = Some ?vs1" by simp
  from Cons.IH [OF this, of "Suc k"] obtain vs'
    where r: "inChecks ?e1 path i (Suc k) vals
              = Inr (?e1\<lparr>ExpressionAttributeValues := Some vs'\<rparr>,
                     map (\<lambda>j. path @ '' = '' @ valKeyIn i j) [Suc k..<Suc k + length vals])"
      and d: "dom vs' = dom ?vs1 \<union> valKeyIn i ` {Suc k..<Suc k + length vals}"
    by blast
  have "{k..<k + length (v # vals)} = insert k {Suc k..<Suc k + length vals}"
    by auto
  with d have "dom vs' = dom vs \<union> valKeyIn i ` {k..<k + length (v # vals)}"
    by auto
  moreover have "inChecks e path i k (v # vals)
              = Inr (e\<lparr>ExpressionAttributeValues := Some vs'\<rparr>,
                     map (\<lambda>j. path @ '' = '' @ valKeyIn i j) [k..<k + length (v # vals)])"
  proof -
    have up: "[k..<Suc (k + length vals)] = k # [Suc k..<Suc (k + length vals)]"
      by (subst upt_rec) simp
    from Cons.prems r show ?thesis
      by (simp add: setValue_def bindE_def up del: upt_Suc)
  qed
  ultimately show ?case by blast
qed

lemma valueKeysOf_members:
  "valKey i \<in> valueKeysOf i" "valKeyIn i j \<in> valueKeysOf i" "valKeyLike i k s \<in> valueKeysOf i"
  by (auto simp: valueKeysOf_def intro: range_eqI [where x = "(k, s)"])

lemma basic_placeholders:
  assumes "ExpressionAttributeValues e = Some vs"
    and "buildBasicExpression e (pathOf i parts) op v i = Inr (e', s)"
  shows "\<exists>vs'. e' = e\<lparr>ExpressionAttributeValues := Some vs'\<rparr>
           \<and> dom vs \<subseteq> dom vs' \<and> dom vs' \<subseteq> dom vs \<union> valueKeysOf i
           \<and> set (placeholders (CHR '':'') s) \<subseteq> dom vs' \<inter> valueKeysOf i
           \<and> set (placeholders (CHR ''#'') s) \<subseteq> nameKey i ` {0..<length parts}"
proof -
  from assms obtain dynOp where l: "lookupOperator op = Some dynOp"
    and e': "e' = e\<lparr>ExpressionAttributeValues := Some (vs(valKey i \<mapsto> toDynamoDBValue v))\<rparr>"
    and s: "s = pathOf i parts @ '' '' @ dynOp @ '' '' @ valKey i"
    by (auto simp: buildBasicExpression_def setValue_def bindE_def split: option.splits)
  from placeholders_basic [OF l, of i parts] s
  have "set (placeholders (CHR '':'') s) = {valKey i}"
    "set (placeholders (CHR ''#'') s) = nameKey i ` {0..<length parts}"
    by simp_all
  with e' show ?thesis
    by (intro exI [of _ "vs(valKey i \<mapsto> toDynamoDBValue v)"])
       (auto simp: valueKeysOf_members)
qed

lemma in_placeholders:
  assumes "ExpressionAttributeValues e = Some vs"
    and "buildInExpression e (pathOf i parts) v i isNot = Inr (e', s)"
  shows "\<exists>vs'. e' = e\<lparr>ExpressionAttributeValues := Some vs'\<rparr>
           \<and> dom vs \<subseteq> dom vs' \<and> dom vs' \<subseteq> dom vs \<union> valueKeysOf i
           \<and> set (placeholders (CHR '':'') s) \<subseteq> dom vs' \<inter> valueKeysOf i
           \<and> set (placeholders (CHR ''#'') s) \<subseteq> nameKey i ` {0..<length parts}"
proof -
  let ?vals = "case v of JArr vs \<Rightarrow> vs | _ \<Rightarrow> [v]"
  let ?checks = "map (\<lambda>j. pathOf i parts @ '' = '' @ valKeyIn i j) [0..<0 + length ?vals]"
  from inChecks_spec [OF assms(1), of "pathOf i parts" i 0 ?vals] obtain vs'
    where r: "inChecks e (pathOf i parts) i 0 ?vals
                = Inr (e\<lparr>ExpressionAttributeValues := Some vs'\<rparr>, ?checks)"
      and d: "dom vs' = dom vs \<union> valKeyIn i ` {0..<0 + length ?vals}"
    by blast
  from assms(2) r have e': "e' = e\<lparr>ExpressionAttributeValues := Some vs'\<rparr>"
    and s: "s = (if isNot then ''NOT '' else []) @ ''('' @ join '' OR '' ?checks @ '')''"
    by (auto simp: buildInExpression_def bindE_def Let_def)
  have p: "placeholders m s = concat (map (placeholders m) ?checks)"
    if "m = CHR ''#'' \<or> m = CHR '':''" for m
    using that placeholders_parens [OF that, of "join '' OR '' ?checks"] s
    by (auto simp: placeholders_OR_join placeholders_skip_char)
  have "concat (map (placeholders (CHR '':'')) ?checks) = map (valKeyIn i) [0..<length ?vals]"
    by (simp only: map_map comp_def placeholders_equalityCheck concat_map_singleton add_0)
  then have "set (placeholders (CHR '':'') s) = valKeyIn i ` {0..<length ?vals}"
    by (simp add: p)
  moreover have "concat (map (placeholders (CHR ''#'')) ?checks)
      = concat (map (\<lambda>j. map (nameKey i) [0..<length parts]) [0..<length ?vals])"
    by (simp only: map_map comp_def placeholders_equalityCheck add_0)
  then have "set (placeholders (CHR ''#'') s) \<subseteq> nameKey i ` {0..<length parts}"
    by (auto simp: p)
  ultimately show ?thesis using e' d
    by (intro exI [of _ vs']) (auto simp: valueKeysOf_members)
qed

lemma like_placeholders:
  assumes "ExpressionAttributeValues e = Some vs"
    and "buildLikeExpression e (pathOf i parts) v i isNot = Inr (e', s)"
  shows "\<exists>vs'. e' = e\<lparr>ExpressionAttributeValues := Some vs'\<rparr>
           \<and> dom vs \<subseteq> dom vs' \<and> dom vs' \<subseteq> dom vs \<union> valueKeysOf i
           \<and> set (placeholders (CHR '':'') s) \<subseteq> dom vs' \<inter> valueKeysOf i
           \<and> set (placeholders (CHR ''#'') s) \<subseteq> nameKey i ` {0..<length parts}"
proof (cases "searchTerms v = []")
  case True
  with assms(2) have e': "e' = e"
    and s: "s = (if isNot then ''attribute_exists('' @ pathOf i parts @ '')''
                 else ''attribute_not_exists('' @ pathOf i parts @ '')'')"
    by (auto simp: buildLikeExpression_def)
  from assms(1) e' have "e' = e\<lparr>ExpressionAttributeValues := Some vs\<rparr>" by simp
  moreover from s have "set (placeholders (CHR '':'') s) = {}"
    "set (placeholders (CHR ''#'') s) = nameKey i ` {0..<length parts}"
    using placeholders_exists [of i parts] by (cases isNot; simp)+
  ultimately show ?thesis
    by (intro exI [of _ vs]) auto
next
  case False
  let ?ts = "searchTerms v"
  let ?clauses = "map (\<lambda>j. if isNot then ''NOT ('' @ containsExpr (pathOf i parts) i j @ '')''
                             else containsExpr (pathOf i parts) i j) [0..<0 + length ?ts]"
  from containsExpressions_spec [OF assms(1), of "pathOf i parts" i isNot 0 ?ts] obtain vs'
    where r: "containsExpressions e (pathOf i parts) i isNot 0 ?ts
                = Inr (e\<lparr>ExpressionAttributeValues := Some vs'\<rparr>, ?clauses)"
      and d: "dom vs' = dom vs \<union> (\<Union>j<length ?ts. {valKeyLike i (0 + j) ''l'',
                  valKeyLike i (0 + j) ''u'', valKeyLike i (0 + j) ''o''})"
    by blast
  from assms(2) r False have e': "e' = e\<lparr>ExpressionAttributeValues := Some vs'\<rparr>"
    and s: "s = (if isNot then join '' AND '' ?clauses
                 else ''('' @ join '' AND '' ?clauses @ '')'')"
    by (auto simp: buildLikeExpression_def bindE_def)
  have p: "placeholders m s = concat (map (placeholders m) ?clauses)"
    if "m = CHR ''#'' \<or> m = CHR '':''" for m
    using that placeholders_parens [OF that, of "join '' AND '' ?clauses"] s
    by (auto simp: placeholders_AND_join)
  have c: "placeholders m (if isNot then ''NOT ('' @ containsExpr (pathOf i parts) i j @ '')''
                           else containsExpr (pathOf i parts) i j)
           = placeholders m (containsExpr (pathOf i parts) i j)"
    if "m = CHR ''#'' \<or> m = CHR '':''" for m j
    using that placeholders_parens [OF that, of "containsExpr (pathOf i parts) i j"]
    by (auto simp: placeholders_skip_char)
  have "set (placeholders (CHR '':'') s)
      = (\<Union>j<length ?ts. {valKeyLike i j ''l'', valKeyLike i j ''u'', valKeyLike i j ''o''})"
    by (simp add: p c placeholders_containsExpr comp_def) auto
  moreover have "set (placeholders (CHR ''#'') s) \<subseteq> nameKey i ` {0..<length parts}"
    by (auto simp: p c placeholders_containsExpr comp_def)
  ultimately show ?thesis using e' d
    by (intro exI [of _ vs']) (auto simp: valueKeysOf_members)
qed

lemma buildSubExpression_placeholders:
  assumes "hasMaps e" and "buildSubExpression e fld op v i = Inr (e', s)"
  shows "set (placeholders (CHR ''#'') s) \<subseteq> nameKeysOf i \<inter> namesOf e'
       \<and> set (placeholders (CHR '':'') s) \<subseteq> valueKeysOf i \<inter> valuesOf e'
       \<and> namesOf e \<subseteq> namesOf e' \<and> namesOf e' \<subseteq> namesOf e \<union> nameKeysOf i
       \<and> valuesOf e \<subseteq> valuesOf e' \<and> valuesOf e' \<subseteq> valuesOf e \<union> valueKeysOf i
       \<and> hasMaps e'
       \<and> KeyConditionExpression e' = KeyConditionExpression e
       \<and> FilterExpression e' = FilterExpression e"
proof -
  from assms(1) obtain ns vs where ns: "ExpressionAttributeNames e = Some ns"
    and vs: "ExpressionAttributeValues e = Some vs"
    by (auto simp: hasMaps_def)
  let ?parts = "splitOn (CHR ''.'') fld"
  from setPathNames_spec [OF ns, of i 0 ?parts] obtain ns'
    where p: "setPathNames e i 0 ?parts = Inr (e\<lparr>ExpressionAttributeNames := Some ns'\<rparr>)"
      and d: "dom ns' = dom ns \<union> nameKey i ` {0..<0 + length ?parts}"
    by blast
  let ?e1 = "e\<lparr>ExpressionAttributeNames := Some ns'\<rparr>"
  have v1: "ExpressionAttributeValues ?e1 = Some vs" using vs by simp
  from assms(2) p
  have "buildLikeExpression ?e1 (pathOf i ?parts) v i (op = ''not like'') = Inr (e', s)
      \<or> buildInExpression ?e1 (pathOf i ?parts) v i (op = ''not in'') = Inr (e', s)
      \<or> buildBasicExpression ?e1 (pathOf i ?parts) op v i = Inr (e', s)"
    by (auto simp: buildSubExpression_def Let_def bindE_def split: if_splits)
  then have "\<exists>vs'. e' = ?e1\<lparr>ExpressionAttributeValues := Some vs'\<rparr>
           \<and> dom vs \<subseteq> dom vs' \<and> dom vs' \<subseteq> dom vs \<union> valueKeysOf i
           \<and> set (placeholders (CHR '':'') s) \<subseteq> dom vs' \<inter> valueKeysOf i
           \<and> set (placeholders (CHR ''#'') s) \<subseteq> nameKey i ` {0..<length ?parts}"
  proof (elim disjE)
    assume "buildLikeExpression ?e1 (pathOf i ?parts) v i (op = ''not like'') = Inr (e', s)"
    then show ?thesis by (rule like_placeholders [OF v1])
  next
    assume "buildInExpression ?e1 (pathOf i ?parts) v i (op = ''not in'') = Inr (e', s)"
    then show ?thesis by (rule in_placeholders [OF v1])
  next
    assume "buildBasicExpression ?e1 (pathOf i ?parts) op v i = Inr (e', s)"
    then show ?thesis by (rule basic_placeholders [OF v1])
  qed
  then obtain vs' where e': "e' = ?e1\<lparr>ExpressionAttributeValues := Some vs'\<rparr>"
    and dv: "dom vs \<subseteq> dom vs'" "dom vs' \<subseteq> dom vs \<union> valueKeysOf i"
    and pv: "set (placeholders (CHR '':'') s) \<subseteq> dom vs' \<inter> valueKeysOf i"
    and pn: "set (placeholders (CHR ''#'') s) \<subseteq> nameKey i ` {0..<length ?parts}"
    by blast
  from e' ns vs have n': "namesOf e' = dom ns'" "valuesOf e' = dom vs'"
    "namesOf e = dom ns" "valuesOf e = dom vs"
    by (simp_all add: namesOf_def valuesOf_def orDefault_def)
  have k: "nameKey i ` {0..<length ?parts} \<subseteq> nameKeysOf i"
    by (auto simp: nameKeysOf_def)
  from e' have "hasMaps e'" "KeyConditionExpression e' = KeyConditionExpression e"
    "FilterExpression e' = FilterExpression e"
    by (simp_all add: hasMaps_def)
  with n' d dv pv pn k show ?thesis
    by auto
qed

lemma nameKeysOf_disjoint: "i \<noteq> j \<Longrightarrow> nameKeysOf i \<inter> nameKeysOf j = {}"
  by (auto simp: nameKeysOf_def nameKey_inj)

lemma valueKeysOf_disjoint: "i \<noteq> j \<Longrightarrow> valueKeysOf i \<inter> valueKeysOf j = {}"
proof -
  assume ij: "i \<noteq> j"
  have "x \<notin> valueKeysOf j" if "x \<in> valueKeysOf i" for x
  proof -
    from that consider "x = valKey i" | a where "x = valKeyIn i a"
      | k s where "x = valKeyLike i k s"
      by (auto simp: valueKeysOf_def)
    then show ?thesis
    proof cases
      case 1
      with ij show ?thesis
        by (auto simp: valueKeysOf_def valKey_inj valKey_neq_valKeyIn valKey_neq_valKeyLike)
    next
      case 2
      with ij valKey_neq_valKeyIn [of j i a] valKeyIn_valKeyLike [of i a j] show ?thesis
        by (auto simp: valueKeysOf_def valKeyIn_inj)
    next
      case 3
      with ij valKey_neq_valKeyLike [of j i k s] show ?thesis
        by (auto simp: valueKeysOf_def valKeyLike_inj dest: valKeyIn_valKeyLike [OF sym])
    qed
  qed
  then show ?thesis by auto
qed

lemma pk_not_generated: "''#pk'' \<notin> nameKeysOf i" "'':pkVal'' \<notin> valueKeysOf i"
  by (auto simp: nameKeysOf_def valueKeysOf_def nameKey_def valKey_def valKeyIn_def
        valKeyLike_def)

lemma subExpressions_placeholders:
  "hasMaps e \<Longrightarrow> subExpressions e i fs = Inr (e', ss) \<Longrightarrow>
     length ss = length fs
     \<and> (\<forall>k<length ss.
           set (placeholders (CHR ''#'') (ss ! k)) \<subseteq> nameKeysOf (i + k) \<inter> namesOf e'
         \<and> set (placeholders (CHR '':'') (ss ! k)) \<subseteq> valueKeysOf (i + k) \<inter> valuesOf e')
     \<and> namesOf e \<subseteq> namesOf e' \<and> valuesOf e \<subseteq> valuesOf e'
     \<and> hasMaps e'
     \<and> KeyConditionExpression e' = KeyConditionExpression e
     \<and> FilterExpression e' = FilterExpression e"
proof (induction fs arbitrary: e i ss)
  case Nil
  then show ?case by simp
next
  case (Cons f fs)
  from Cons.prems(2) obtain e1 s rest
    where b: "buildSubExpression e (field f) (operator f) (fvalue f) i = Inr (e1, s)"
      and r: "subExpressions e1 (Suc i) fs = Inr (e', rest)"
      and ss: "ss = s # rest"
    by (auto simp: bindE_def split: sum.splits prod.splits)
  note h = buildSubExpression_placeholders [OF Cons.prems(1) b]
  from h have h1: "hasMaps e1" by simp
  note ih = Cons.IH [OF h1 r]
  have "set (placeholders (CHR ''#'') (ss ! k)) \<subseteq> nameKeysOf (i + k) \<inter> namesOf e'
         \<and> set (placeholders (CHR '':'') (ss ! k)) \<subseteq> valueKeysOf (i + k) \<inter> valuesOf e'"
    if "k < length ss" for k
  proof (cases k)
    case 0
    with ss h ih show ?thesis by auto
  next
    case (Suc k')
    with that ss have "k' < length rest" by simp
    with ih Suc ss show ?thesis by simp
  qed
  with ss h ih show ?case by auto
qed

lemma placeholders_keyCondition:
  "placeholders (CHR ''#'') ''#pk = :pkVal'' = [''#pk'']"
  "placeholders (CHR '':'') ''#pk = :pkVal'' = ['':pkVal'']"
  by (simp_all add: placeholders.simps isIdentChar_def isLower_def isUpper_def isDigit_def)

lemma partitionKey_step:
  assumes "(case pkf of
              None \<Rightarrow> Inr \<lparr>KeyConditionExpression = None, FilterExpression = None,
                           ExpressionAttributeNames = Some Map.empty,
                           ExpressionAttributeValues = Some Map.empty\<rparr>
            | Some pk \<Rightarrow>
                addPartitionKeyExpression
                  \<lparr>KeyConditionExpression = None, FilterExpression = None,
                   ExpressionAttributeNames = Some Map.empty,
                   ExpressionAttributeValues = Some Map.empty\<rparr> pk) = Inr e1"
  shows "hasMaps e1 \<and> FilterExpression e1 = None
       \<and> set (placeholders (CHR ''#'') (orDefault (KeyConditionExpression e1) [])) \<subseteq> namesOf e1
       \<and> set (placeholders (CHR '':'') (orDefault (KeyConditionExpression e1) [])) \<subseteq> valuesOf e1"
proof (cases pkf)
  case None
  with assms show ?thesis
    by (auto simp: hasMaps_def orDefault_def)
next
  case (Some pk)
  with assms show ?thesis
    by (auto simp: addPartitionKeyExpression_def setName_def setValue_def bindE_def
          hasMaps_def orDefault_def namesOf_def valuesOf_def placeholders_keyCondition)
qed

lemma validateFilter_id:
  "validateFilter \<lparr>field = ''id'', operator = ''='', fvalue = JStr ''u1''\<rparr> = Inr ()"
  by (simp add: validateFilter_def bindE_def validateFieldName_eval validateValue_eval
        includes_str_hd toLowerCase_def lowerChar_def startsWith_def MAX_FIELD_DEPTH_def
        validateFieldPart_def MAX_FIELD_LENGTH_def VALID_FIELD_REGEX_def isLower_def
        isUpper_def isDigit_def isIdentChar_def hasOwnPropertyCall_def jsonQuote_def
        jsonEscape_def MAX_VALUE_LENGTH_def)

lemma validateFilter_profile:
  "validateFilter \<lparr>field = ''profile.name'', operator = ''like'', fvalue = JStr ''Al''\<rparr>
     = Inr ()"
  by (simp add: validateFilter_def bindE_def validateFieldName_eval validateValue_eval
        includes_str_hd toLowerCase_def lowerChar_def startsWith_def MAX_FIELD_DEPTH_def
        validateFieldPart_def MAX_FIELD_LENGTH_def VALID_FIELD_REGEX_def isLower_def
        isUpper_def isDigit_def isIdentChar_def hasOwnPropertyCall_def jsonQuote_def
        jsonEscape_def MAX_VALUE_LENGTH_def)

lemma validateValue_JNum_2: "validateValue (JNum 2) = Inr ()"
  by (simp add: validateValue_eval includes_str_hd hasOwnPropertyCall_def showInt_def
        showNat.simps toLowerCase_def lowerChar_def startsWith_def)

lemma validateFilter_age:
  "validateFilter \<lparr>field = ''age'', operator = ''in'', fvalue = JArr [JNum 1, JNum 2]\<rparr>
     = Inr ()"
  by (simp add: validateFilter_def bindE_def validateFieldName_age validateValue_eval
        validateValue_JNum_1 validateValue_JNum_2
        includes_str_hd toLowerCase_def lowerChar_def startsWith_def
        hasOwnPropertyCall_def showInt_def showNat.simps)

lemma buildFilterExpression_example:
  "buildFilterExpression ''id''
     [\<lparr>field = ''id'', operator = ''='', fvalue = JStr ''u1''\<rparr>,
      \<lparr>field = ''profile.name'', operator = ''like'', fvalue = JStr ''Al''\<rparr>,
      \<lparr>field = ''age'', operator = ''in'', fvalue = JArr [JNum 1, JNum 2]\<rparr>]
   = Inr \<lparr>KeyConditionExpression = Some ''#pk = :pkVal'',
          FilterExpression = Some ''(contains(#key0_0.#key0_1, :val0_0_l) OR contains(#key0_0.#key0_1, :val0_0_u) OR contains(#key0_0.#key0_1, :val0_0_o)) AND (#key1_0 = :val1_0 OR #key1_0 = :val1_1)'',
          ExpressionAttributeNames =
            Some [''#pk'' \<mapsto> ''id'', ''#key0_0'' \<mapsto> ''profile'', ''#key0_1'' \<mapsto> ''name'',
                  ''#key1_0'' \<mapsto> ''age''],
          ExpressionAttributeValues =
            Some ['':pkVal'' \<mapsto> AttrS ''u1'', '':val0_0_l'' \<mapsto> AttrS ''al'',
                  '':val0_0_u'' \<mapsto> AttrS ''AL'', '':val0_0_o'' \<mapsto> AttrS ''al'',
                  '':val1_0'' \<mapsto> AttrN 1, '':val1_1'' \<mapsto> AttrN 2]\<rparr>"
  by (simp add: buildFilterExpression_def validateFilter_id validateFilter_profile
        validateFilter_age bindE_def extractPartitionKeyFilter_def isPartitionKeyFilter_def
        splice1_def addPartitionKeyExpression_def setName_def setValue_def
        addFilterExpressions_def buildSubExpression_def Let_def pathOf_def nameKey_def
        showNat.simps buildLikeExpression_def searchTerms_def toLowerCase_def toUpperCase_def
        lowerChar_def upperChar_def isSpace_def containsExpr_def valKeyLike_def
        buildInExpression_def valKeyIn_def upt_conv_Cons)

text \<open>
  Claim C7. In the expression that \<^verbatim>\<open>buildFilterExpression\<close> returns, every name
  placeholder that the key condition or the filter expression refers to is a key of
  \<^verbatim>\<open>ExpressionAttributeNames\<close>, and every value placeholder a key of
  \<^verbatim>\<open>ExpressionAttributeValues\<close>. The filter expression is the AND of one sub-expression
  for each remaining predicate, and the sub-expression at index \<open>k\<close> refers only to
  placeholders formed from \<open>k\<close>; the placeholders formed from two distinct indices
  differ, and none of them is \<^verbatim>\<open>#pk\<close> or \<^verbatim>\<open>:pkVal\<close>.
\<close>

theorem placeholders_defined_and_distinct:
  assumes "buildFilterExpression pkName fs = Inr e"
  shows "set (placeholders (CHR ''#'') (orDefault (KeyConditionExpression e) [])) \<subseteq> namesOf e
       \<and> set (placeholders (CHR ''#'') (orDefault (FilterExpression e) [])) \<subseteq> namesOf e
       \<and> set (placeholders (CHR '':'') (orDefault (KeyConditionExpression e) [])) \<subseteq> valuesOf e
       \<and> set (placeholders (CHR '':'') (orDefault (FilterExpression e) [])) \<subseteq> valuesOf e
       \<and> (\<exists>ss. length ss = length (snd (extractPartitionKeyFilter pkName fs))
              \<and> (ss \<noteq> [] \<longrightarrow> FilterExpression e = Some (join '' AND '' ss))
              \<and> placeholders (CHR ''#'') (join '' AND '' ss)
                  = concat (map (placeholders (CHR ''#'')) ss)
              \<and> placeholders (CHR '':'') (join '' AND '' ss)
                  = concat (map (placeholders (CHR '':'')) ss)
              \<and> (\<forall>k<length ss.
                    set (placeholders (CHR ''#'') (ss ! k)) \<subseteq> nameKeysOf k
                  \<and> set (placeholders (CHR '':'') (ss ! k)) \<subseteq> valueKeysOf k))
       \<and> (\<forall>i j. i \<noteq> j \<longrightarrow>
              nameKeysOf i \<inter> nameKeysOf j = {} \<and> valueKeysOf i \<inter> valueKeysOf j = {})
       \<and> (\<forall>i. ''#pk'' \<notin> nameKeysOf i \<and> '':pkVal'' \<notin> valueKeysOf i)"
proof -
  have dist: "(\<forall>i j. i \<noteq> j \<longrightarrow>
              nameKeysOf i \<inter> nameKeysOf j = {} \<and> valueKeysOf i \<inter> valueKeysOf j = {})
       \<and> (\<forall>i. ''#pk'' \<notin> nameKeysOf i \<and> '':pkVal'' \<notin> valueKeysOf i)"
    by (simp add: nameKeysOf_disjoint valueKeysOf_disjoint pk_not_generated)
  have j: "placeholders (CHR ''#'') (join '' AND '' ss)
                  = concat (map (placeholders (CHR ''#'')) ss)
              \<and> placeholders (CHR '':'') (join '' AND '' ss)
                  = concat (map (placeholders (CHR '':'')) ss)" for ss
    by (simp add: placeholders_AND_join)
  show ?thesis
  proof (cases "fs = []")
    case True
    with assms have "e = emptyExpression"
      by (simp add: buildFilterExpression_def)
    with True dist show ?thesis
      by (auto simp: emptyExpression_def orDefault_def extractPartitionKeyFilter_def
            intro!: exI [of _ "[]"])
  next
    case False
    obtain pkf rest where ex: "extractPartitionKeyFilter pkName fs = (pkf, rest)"
      by (cases "extractPartitionKeyFilter pkName fs") auto
    let ?e0 = "\<lparr>KeyConditionExpression = None, FilterExpression = None,
                ExpressionAttributeNames = Some Map.empty,
                ExpressionAttributeValues = Some Map.empty\<rparr>"
    from assms False ex obtain e1
      where e1: "(case pkf of None \<Rightarrow> Inr ?e0 | Some pk \<Rightarrow> addPartitionKeyExpression ?e0 pk)
                   = Inr e1"
        and fin: "(if rest \<noteq> [] then addFilterExpressions e1 rest else Inr e1) = Inr e"
      by (auto simp: buildFilterExpression_def bindE_def Let_def split: sum.splits)
    note p = partitionKey_step [OF e1]
    show ?thesis
    proof (cases "rest = []")
      case True
      with fin have "e = e1" by simp
      with p True ex dist show ?thesis
        by (auto simp: orDefault_def intro!: exI [of _ "[]"])
    next
      case False
      with fin obtain e2 ss where s: "subExpressions e1 0 rest = Inr (e2, ss)"
        and e: "e = e2\<lparr>FilterExpression := Some (join '' AND '' ss)\<rparr>"
        by (auto simp: addFilterExpressions_def bindE_def split: sum.splits)
      from p have h1: "hasMaps e1" by simp
      note q = subExpressions_placeholders [OF h1 s]
      from e have n: "namesOf e = namesOf e2" "valuesOf e = valuesOf e2"
        "KeyConditionExpression e = KeyConditionExpression e2"
        "FilterExpression e = Some (join '' AND '' ss)"
        by (simp_all add: namesOf_def valuesOf_def)
      from q have per: "\<forall>k<length ss.
                    set (placeholders (CHR ''#'') (ss ! k)) \<subseteq> nameKeysOf k \<inter> namesOf e2
                  \<and> set (placeholders (CHR '':'') (ss ! k)) \<subseteq> valueKeysOf k \<inter> valuesOf e2"
        by simp
      have all: "set (concat (map (placeholders (CHR ''#'')) ss)) \<subseteq> namesOf e2
               \<and> set (concat (map (placeholders (CHR '':'')) ss)) \<subseteq> valuesOf e2"
      proof -
        have "set (placeholders (CHR ''#'') x) \<subseteq> namesOf e2
            \<and> set (placeholders (CHR '':'') x) \<subseteq> valuesOf e2" if "x \<in> set ss" for x
        proof -
          from that obtain k where "k < length ss" "x = ss ! k"
            by (auto simp: in_set_conv_nth)
          with per show ?thesis by auto
        qed
        then show ?thesis by auto
      qed
      from q p have kc: "set (placeholders (CHR ''#'') (orDefault (KeyConditionExpression e2) []))
                    \<subseteq> namesOf e2"
        "set (placeholders (CHR '':'') (orDefault (KeyConditionExpression e2) [])) \<subseteq> valuesOf e2"
        by auto
      from q ex have len: "length ss = length (snd (extractPartitionKeyFilter pkName fs))"
        by simp
      have "\<exists>ss. length ss = length (snd (extractPartitionKeyFilter pkName fs))
              \<and> (ss \<noteq> [] \<longrightarrow> FilterExpression e = Some (join '' AND '' ss))
              \<and> placeholders (CHR ''#'') (join '' AND '' ss)
                  = concat (map (placeholders (CHR ''#'')) ss)
              \<and> placeholders (CHR '':'') (join '' AND '' ss)
                  = concat (map (placeholders (CHR '':'')) ss)
              \<and> (\<forall>k<length ss.
                    set (placeholders (CHR ''#'') (ss ! k)) \<subseteq> nameKeysOf k
                  \<and> set (placeholders (CHR '':'') (ss ! k)) \<subseteq> valueKeysOf k)"
        using len n(4) j [of ss] per by (intro exI [of _ ss]) simp
      moreover from all j [of ss] n
      have "set (placeholders (CHR ''#'') (orDefault (FilterExpression e) [])) \<subseteq> namesOf e"
        "set (placeholders (CHR '':'') (orDefault (FilterExpression e) [])) \<subseteq> valuesOf e"
        by (simp_all add: orDefault_def)
      moreover from kc n
      have "set (placeholders (CHR ''#'') (orDefault (KeyConditionExpression e) [])) \<subseteq> namesOf e"
        "set (placeholders (CHR '':'') (orDefault (KeyConditionExpression e) [])) \<subseteq> valuesOf e"
        by simp_all
      ultimately show ?thesis using dist by blast
    qed
  qed
qed

theorem placeholders_defined_and_distinct_witness:
  "buildFilterExpression ''id''
     [\<lparr>field = ''id'', operator = ''='', fvalue = JStr ''u1''\<rparr>,
      \<lparr>field = ''profile.name'', operator = ''like'', fvalue = JStr ''Al''\<rparr>,
      \<lparr>field = ''age'', operator = ''in'', fvalue = JArr [JNum 1, JNum 2]\<rparr>]
   = Inr \<lparr>KeyConditionExpression = Some ''#pk = :pkVal'',
          FilterExpression = Some ''(contains(#key0_0.#key0_1, :val0_0_l) OR contains(#key0_0.#key0_1, :val0_0_u) OR contains(#key0_0.#key0_1, :val0_0_o)) AND (#key1_0 = :val1_0 OR #key1_0 = :val1_1)'',
          ExpressionAttributeNames =
            Some [''#pk'' \<mapsto> ''id'', ''#key0_0'' \<mapsto> ''profile'', ''#key0_1'' \<mapsto> ''name'',
                  ''#key1_0'' \<mapsto> ''age''],
          ExpressionAttributeValues =
            Some ['':pkVal'' \<mapsto> AttrS ''u1'', '':val0_0_l'' \<mapsto> AttrS ''al'',
                  '':val0_0_u'' \<mapsto> AttrS ''AL'', '':val0_0_o'' \<mapsto> AttrS ''al'',
                  '':val1_0'' \<mapsto> AttrN 1, '':val1_1'' \<mapsto> AttrN 2]\<rparr>
   \<and> set (placeholders (CHR ''#'') ''(contains(#key0_0.#key0_1, :val0_0_l) OR contains(#key0_0.#key0_1, :val0_0_u) OR contains(#key0_0.#key0_1, :val0_0_o)) AND (#key1_0 = :val1_0 OR #key1_0 = :val1_1)'')
        \<subseteq> {''#pk'', ''#key0_0'', ''#key0_1'', ''#key1_0''}
   \<and> set (placeholders (CHR '':'') ''(contains(#key0_0.#key0_1, :val0_0_l) OR contains(#key0_0.#key0_1, :val0_0_u) OR contains(#key0_0.#key0_1, :val0_0_o)) AND (#key1_0 = :val1_0 OR #key1_0 = :val1_1)'')
        \<subseteq> {'':pkVal'', '':val0_0_l'', '':val0_0_u'', '':val0_0_o'', '':val1_0'', '':val1_1''}
   \<and> set (placeholders (CHR ''#'') ''#pk = :pkVal'')
        \<subseteq> {''#pk'', ''#key0_0'', ''#key0_1'', ''#key1_0''}
   \<and> set (placeholders (CHR '':'') ''#pk = :pkVal'')
        \<subseteq> {'':pkVal'', '':val0_0_l'', '':val0_0_u'', '':val0_0_o'', '':val1_0'', '':val1_1''}"
proof -
  note t = placeholders_defined_and_distinct [OF buildFilterExpression_example]
  have n: "namesOf \<lparr>KeyConditionExpression = k, FilterExpression = f,
          ExpressionAttributeNames =
            Some [''#pk'' \<mapsto> ''id'', ''#key0_0'' \<mapsto> ''profile'', ''#key0_1'' \<mapsto> ''name'',
                  ''#key1_0'' \<mapsto> ''age''],
          ExpressionAttributeValues = v\<rparr> = {''#pk'', ''#key0_0'', ''#key0_1'', ''#key1_0''}"
    for k f v
    by (auto simp: namesOf_def orDefault_def)
  have v: "valuesOf \<lparr>KeyConditionExpression = k, FilterExpression = f,
          ExpressionAttributeNames = m,
          ExpressionAttributeValues =
            Some ['':pkVal'' \<mapsto> AttrS ''u1'', '':val0_0_l'' \<mapsto> AttrS ''al'',
                  '':val0_0_u'' \<mapsto> AttrS ''AL'', '':val0_0_o'' \<mapsto> AttrS ''al'',
                  '':val1_0'' \<mapsto> AttrN 1, '':val1_1'' \<mapsto> AttrN 2]\<rparr>
      = {'':pkVal'', '':val0_0_l'', '':val0_0_u'', '':val0_0_o'', '':val1_0'', '':val1_1''}"
    for k f m
    by (auto simp: valuesOf_def orDefault_def)
  from t [THEN conjunct1] t [THEN conjunct2, THEN conjunct1]
    t [THEN conjunct2, THEN conjunct2, THEN conjunct1]
    t [THEN conjunct2, THEN conjunct2, THEN conjunct2, THEN conjunct1]
  show ?thesis
    unfolding n v
    by (simp only: buildFilterExpression_example orDefault_def option.case
          DynamoDBFilterExpression.simps simp_thms)
qed

end
